theory Spec2Isabelle
  imports Main "HOL-Library.Sublist"
begin

section \<open>Python values and text\<close>

text \<open>
  The script \<^verbatim>\<open>test-api.py\<close> handles three kinds of data: text, the values that
  \<^verbatim>\<open>response.json()\<close> decodes, and exceptions.

  Text is a \<^typ>\<open>string\<close> holding the UTF-8 encoding of the Python \<^verbatim>\<open>str\<close>: this is how the
  source file stores its literals (the pictographs of the banners are several bytes) and
  what a UTF-8 standard output receives. Python counts code points, so \<^verbatim>\<open>len\<close> of a
  \<^verbatim>\<open>str\<close> counts the bytes that start a code point.
\<close>

datatype json =
    JNull
  | JBool bool
  | JInt int
  | JFloat string
  | JStr string
  | JList "json list"
  | JObj "(string \<times> json) list"

text \<open>
  \<open>JObj\<close> is a decoded \<^verbatim>\<open>dict\<close>: its items in insertion order, the keys distinct.
  \<open>JFloat\<close> carries the numeral a float was decoded from; the script never computes
  with one.
\<close>

definition is_continuation :: "char \<Rightarrow> bool" where
  "is_continuation c = (128 \<le> (of_char c :: nat) \<and> (of_char c :: nat) < 192)"

function codepoints :: "string \<Rightarrow> string list" where
  "codepoints [] = []"
| "codepoints (c # cs) =
     (c # takeWhile is_continuation cs) # codepoints (dropWhile is_continuation cs)"
  by pat_completeness auto
termination
  by (relation "measure length") (auto simp: le_imp_less_Suc length_dropWhile_le)

subsection \<open>Rendering: \<^verbatim>\<open>str()\<close> as an f-string applies it\<close>

definition digit_char :: "nat \<Rightarrow> char" where
  "digit_char d = ''0123456789'' ! d"

function dec_nat :: "nat \<Rightarrow> string" where
  "dec_nat n = (if n < 10 then [digit_char n] else dec_nat (n div 10) @ [digit_char (n mod 10)])"
  by pat_completeness auto
termination
  by (relation "measure id") auto

declare dec_nat.simps [simp del]

definition py_str_int :: "int \<Rightarrow> string" where
  "py_str_int i = (if i < 0 then CHR ''-'' # dec_nat (nat (- i)) else dec_nat (nat i))"

text \<open>
  \<open>str\<close> of \<^verbatim>\<open>None\<close>, a bool, an int and a \<^verbatim>\<open>str\<close> is fixed by the language. For a list, a
  dict and a float \<open>str\<close> is the interpreter's \<^verbatim>\<open>repr\<close> (quoting rules, the Unicode
  tables, shortest float digits): it is the parameter \<open>rp\<close> of everything that prints.
\<close>

fun py_str :: "(json \<Rightarrow> string) \<Rightarrow> json \<Rightarrow> string" where
  "py_str rp JNull = ''None''"
| "py_str rp (JBool b) = (if b then ''True'' else ''False'')"
| "py_str rp (JInt i) = py_str_int i"
| "py_str rp (JStr s) = s"
| "py_str rp v = rp v"

fun py_type_name :: "json \<Rightarrow> string" where
  "py_type_name JNull = ''NoneType''"
| "py_type_name (JBool _) = ''bool''"
| "py_type_name (JInt _) = ''int''"
| "py_type_name (JFloat _) = ''float''"
| "py_type_name (JStr _) = ''str''"
| "py_type_name (JList _) = ''list''"
| "py_type_name (JObj _) = ''dict''"

subsection \<open>Exceptions\<close>

text \<open>
  An exception is its class and the text \<^verbatim>\<open>str(e)\<close>. \<^verbatim>\<open>except Exception\<close> tests the
  class: \<^verbatim>\<open>KeyboardInterrupt\<close> and \<^verbatim>\<open>SystemExit\<close> derive from \<^verbatim>\<open>BaseException\<close> only, as
  does \<^verbatim>\<open>GeneratorExit\<close> or a class of the user's own (\<open>OtherBaseException\<close>). A
  \<^verbatim>\<open>SystemExit\<close> carries the status the interpreter ends the process with when nothing
  catches it: 0 for the code \<^verbatim>\<open>None\<close> or \<^verbatim>\<open>0\<close>, the code itself for another integer, 1 for
  any other object.
\<close>

datatype exc_class =
    ConnectionError
  | JSONDecodeError
  | AttributeError
  | TypeError
  | OtherException
  | KeyboardInterrupt
  | SystemExit nat
  | OtherBaseException

datatype exc = Raised exc_class string

fun exc_class_of :: "exc \<Rightarrow> exc_class" where
  "exc_class_of (Raised c t) = c"

fun exc_text :: "exc \<Rightarrow> string" where
  "exc_text (Raised c t) = t"

fun subclass_of_Exception :: "exc_class \<Rightarrow> bool" where
  "subclass_of_Exception KeyboardInterrupt = False"
| "subclass_of_Exception (SystemExit s) = False"
| "subclass_of_Exception OtherBaseException = False"
| "subclass_of_Exception _ = True"

definition isinstance_Exception :: "exc \<Rightarrow> bool" where
  "isinstance_Exception e = subclass_of_Exception (exc_class_of e)"

subsection \<open>The operations the script applies to decoded values\<close>

text \<open>\<^verbatim>\<open>d.get(k, default)\<close>: only a dict has the attribute \<^verbatim>\<open>get\<close>.\<close>

fun py_get :: "json \<Rightarrow> string \<Rightarrow> json \<Rightarrow> exc + json" where
  "py_get (JObj kvs) k d = Inr (case map_of kvs k of None \<Rightarrow> d | Some v \<Rightarrow> v)"
| "py_get v k d =
     Inl (Raised AttributeError
       ([CHR 0x27] @ py_type_name v @ [CHR 0x27] @ '' object has no attribute '' @
        [CHR 0x27] @ ''get'' @ [CHR 0x27]))"

text \<open>\<^verbatim>\<open>len(v)\<close>: lists, dicts and strings are sized.\<close>

fun py_len :: "json \<Rightarrow> exc + nat" where
  "py_len (JList xs) = Inr (length xs)"
| "py_len (JObj kvs) = Inr (length kvs)"
| "py_len (JStr s) = Inr (length (codepoints s))"
| "py_len v =
     Inl (Raised TypeError
       (''object of type '' @ [CHR 0x27] @ py_type_name v @ [CHR 0x27] @ '' has no len()''))"

text \<open>The items a \<^verbatim>\<open>for\<close> loop draws from a value: a dict yields its keys, a string its
  characters.\<close>

fun py_iter :: "json \<Rightarrow> exc + json list" where
  "py_iter (JList xs) = Inr xs"
| "py_iter (JObj kvs) = Inr (map (\<lambda>kv. JStr (fst kv)) kvs)"
| "py_iter (JStr s) = Inr (map JStr (codepoints s))"
| "py_iter v =
     Inl (Raised TypeError
       ([CHR 0x27] @ py_type_name v @ [CHR 0x27] @ '' object is not iterable''))"

definition and_then :: "exc + 'a \<Rightarrow> ('a \<Rightarrow> exc + 'b) \<Rightarrow> exc + 'b" where
  "and_then x f = (case x of Inl e \<Rightarrow> Inl e | Inr v \<Rightarrow> f v)"

section \<open>The network and the console\<close>

datatype http_method = GET | POST

record request =
  meth :: http_method
  url :: string
  json_body :: "json option"

text \<open>
  A response is read twice by the script: its \<^verbatim>\<open>status_code\<close>, and \<^verbatim>\<open>json()\<close>, which
  returns the decoded body or raises. A backend says what \<^verbatim>\<open>requests.post\<close> or
  \<^verbatim>\<open>requests.get\<close> does with a request: raise, or return a response.
\<close>

record response =
  status_code :: int
  json_result :: "exc + json"

type_synonym backend = "request \<Rightarrow> exc + response"

text \<open>
  What a run leaves behind: the HTTP calls attempted, in order, and the arguments of the
  \<^verbatim>\<open>print\<close> calls, in order (\<^verbatim>\<open>print()\<close> is the empty text; the stream receives each
  followed by a newline). Writing to standard output is taken to succeed.
\<close>

record world =
  calls :: "request list"
  out :: "string list"

type_synonym 'a prog = "world \<Rightarrow> (exc + 'a) \<times> world"

definition succeed :: "'a \<Rightarrow> 'a prog" where
  "succeed v w = (Inr v, w)"

definition then_do :: "'a prog \<Rightarrow> ('a \<Rightarrow> 'b prog) \<Rightarrow> 'b prog" where
  "then_do m f w = (case m w of (Inl e, w') \<Rightarrow> (Inl e, w') | (Inr v, w') \<Rightarrow> f v w')"

definition compute :: "exc + 'a \<Rightarrow> 'a prog" where
  "compute x w = (x, w)"

definition py_print :: "string \<Rightarrow> unit prog" where
  "py_print t w = (Inr (), w\<lparr>out := out w @ [t]\<rparr>)"

definition http :: "backend \<Rightarrow> request \<Rightarrow> response prog" where
  "http b r w = (b r, w\<lparr>calls := calls w @ [r]\<rparr>)"

section \<open>The script\<close>

subsection \<open>Literals\<close>

definition BASE_URL :: string where
  "BASE_URL = ''http://127.0.0.1:5000''"

definition globe :: string where
  "globe = [CHR 0xF0, CHR 0x9F, CHR 0x8C, CHR 0x90]"

definition keycap :: string where
  "keycap = [CHR 0xEF, CHR 0xB8, CHR 0x8F, CHR 0xE2, CHR 0x83, CHR 0xA3]"

definition check_mark :: string where
  "check_mark = [CHR 0xE2, CHR 0x9C, CHR 0x85]"

definition cross_mark :: string where
  "cross_mark = [CHR 0xE2, CHR 0x9D, CHR 0x8C]"

definition header_text :: string where
  "header_text = [CHR 0x0A] @ globe @ '' Testing API Endpoints...'' @ [CHR 0x0A]"

definition banner1 :: string where
  "banner1 = ''1'' @ keycap @ '' Testing Registration API...''"

definition banner2 :: string where
  "banner2 = ''2'' @ keycap @ '' Testing Login API...''"

definition banner3 :: string where
  "banner3 = ''3'' @ keycap @ '' Testing User Profile API...''"

definition banner4 :: string where
  "banner4 = ''4'' @ keycap @ '' Testing Save Structure API...''"

definition banner5 :: string where
  "banner5 = ''5'' @ keycap @ '' Testing Get Structures API...''"

definition success_text :: string where
  "success_text = check_mark @ '' All API tests passed!'' @ [CHR 0x0A]"

definition failure_prefix :: string where
  "failure_prefix = cross_mark @ '' Error: ''"

definition failure_text :: "exc \<Rightarrow> string" where
  "failure_text e = failure_prefix @ exc_text e @ [CHR 0x0A]"

definition status_text :: "response \<Rightarrow> string" where
  "status_text response = ''   Status: '' @ py_str_int (status_code response)"

subsection \<open>The five requests\<close>

definition register_request :: request where
  "register_request =
     \<lparr>meth = POST, url = BASE_URL @ ''/api/register'',
      json_body = Some (JObj
        [(''fullName'', JStr ''John Scientist''),
         (''email'', JStr ''john@example.com''),
         (''password'', JStr ''secure123'')])\<rparr>"

definition login_request :: request where
  "login_request =
     \<lparr>meth = POST, url = BASE_URL @ ''/api/login'',
      json_body = Some (JObj
        [(''email'', JStr ''john@example.com''),
         (''password'', JStr ''secure123'')])\<rparr>"

definition profile_request :: request where
  "profile_request =
     \<lparr>meth = GET, url = BASE_URL @ ''/api/user/john@example.com'', json_body = None\<rparr>"

definition save_structure_request :: request where
  "save_structure_request =
     \<lparr>meth = POST, url = BASE_URL @ ''/api/user/john@example.com/save-structure'',
      json_body = Some (JObj
        [(''name'', JStr ''Water Molecule''),
         (''nodes'', JList
            [JObj [(''id'', JInt 1), (''name'', JStr ''O''), (''x'', JInt 100), (''y'', JInt 100)],
             JObj [(''id'', JInt 2), (''name'', JStr ''H''), (''x'', JInt 150), (''y'', JInt 80)],
             JObj [(''id'', JInt 3), (''name'', JStr ''H''), (''x'', JInt 150), (''y'', JInt 120)]]),
         (''bonds'', JList
            [JObj [(''from'', JInt 1), (''to'', JInt 2), (''type'', JStr ''single'')],
             JObj [(''from'', JInt 1), (''to'', JInt 3), (''type'', JStr ''single'')]])])\<rparr>"

definition structures_request :: request where
  "structures_request =
     \<lparr>meth = GET, url = BASE_URL @ ''/api/user/john@example.com/structures'',
      json_body = None\<rparr>"

definition five_requests :: "request list" where
  "five_requests =
     [register_request, login_request, profile_request, save_structure_request,
      structures_request]"

subsection \<open>The texts the f-strings build\<close>

text \<open>An f-string evaluates its fields left to right before anything is printed; the first
  field that raises ends it.\<close>

definition login_text :: "(json \<Rightarrow> string) \<Rightarrow> json \<Rightarrow> exc + string" where
  "login_text rp data =
     and_then (py_get data ''user'' (JObj [])) (\<lambda>u1.
     and_then (py_get u1 ''email'' JNull) (\<lambda>email.
     and_then (py_get data ''user'' (JObj [])) (\<lambda>u2.
     and_then (py_get u2 ''fullName'' JNull) (\<lambda>fullName.
     Inr (''   User: '' @ py_str rp email @ '' - '' @ py_str rp fullName)))))"

definition profile_text :: "(json \<Rightarrow> string) \<Rightarrow> json \<Rightarrow> exc + string" where
  "profile_text rp data =
     and_then (py_get data ''email'' JNull) (\<lambda>email.
     and_then (py_get data ''fullName'' JNull) (\<lambda>fullName.
     Inr (''   User: '' @ py_str rp email @ '' - '' @ py_str rp fullName)))"

definition saved_text :: "(json \<Rightarrow> string) \<Rightarrow> json \<Rightarrow> exc + string" where
  "saved_text rp data =
     and_then (py_get data ''structure'' (JObj [])) (\<lambda>s1.
     and_then (py_get s1 ''name'' JNull) (\<lambda>name.
     and_then (py_get data ''structure'' (JObj [])) (\<lambda>s2.
     and_then (py_get s2 ''id'' JNull) (\<lambda>ident.
     Inr (''   Structure: '' @ py_str rp name @ '' (ID: '' @ py_str rp ident @ '')'')))))"

definition structure_text :: "(json \<Rightarrow> string) \<Rightarrow> nat \<Rightarrow> json \<Rightarrow> exc + string" where
  "structure_text rp i s =
     and_then (py_get s ''name'' JNull) (\<lambda>name.
     and_then (py_get s ''data'' (JObj [])) (\<lambda>d.
     and_then (py_get d ''nodes'' (JList [])) (\<lambda>nodes.
     and_then (py_len nodes) (\<lambda>n.
     Inr (''   ['' @ py_str_int (int (i + 1)) @ ''] '' @ py_str rp name @
          '' ('' @ py_str_int (int n) @ '' nodes)'')))))"

subsection \<open>The five steps\<close>

definition step1 :: "(json \<Rightarrow> string) \<Rightarrow> backend \<Rightarrow> unit prog" where
  "step1 rp b =
     then_do (py_print banner1) (\<lambda>_.
     then_do (http b register_request) (\<lambda>response.
     then_do (py_print (status_text response)) (\<lambda>_.
     then_do (compute (json_result response)) (\<lambda>body.
     then_do (py_print (''   Response: '' @ py_str rp body)) (\<lambda>_.
     py_print [])))))"

definition step2 :: "(json \<Rightarrow> string) \<Rightarrow> backend \<Rightarrow> unit prog" where
  "step2 rp b =
     then_do (py_print banner2) (\<lambda>_.
     then_do (http b login_request) (\<lambda>response.
     then_do (py_print (status_text response)) (\<lambda>_.
     then_do (compute (json_result response)) (\<lambda>data.
     then_do (compute (login_text rp data)) (\<lambda>t.
     then_do (py_print t) (\<lambda>_.
     py_print []))))))"

definition step3 :: "(json \<Rightarrow> string) \<Rightarrow> backend \<Rightarrow> unit prog" where
  "step3 rp b =
     then_do (py_print banner3) (\<lambda>_.
     then_do (http b profile_request) (\<lambda>response.
     then_do (py_print (status_text response)) (\<lambda>_.
     then_do (compute (json_result response)) (\<lambda>data.
     then_do (compute (profile_text rp data)) (\<lambda>t.
     then_do (py_print t) (\<lambda>_.
     py_print []))))))"

definition step4 :: "(json \<Rightarrow> string) \<Rightarrow> backend \<Rightarrow> unit prog" where
  "step4 rp b =
     then_do (py_print banner4) (\<lambda>_.
     then_do (http b save_structure_request) (\<lambda>response.
     then_do (py_print (status_text response)) (\<lambda>_.
     then_do (compute (json_result response)) (\<lambda>data.
     then_do (compute (saved_text rp data)) (\<lambda>t.
     then_do (py_print t) (\<lambda>_.
     py_print []))))))"

text \<open>The loop \<^verbatim>\<open>for i, s in enumerate(structures)\<close>: \<open>i\<close> counts from 0.\<close>

fun print_structures :: "(json \<Rightarrow> string) \<Rightarrow> nat \<Rightarrow> json list \<Rightarrow> unit prog" where
  "print_structures rp i [] = succeed ()"
| "print_structures rp i (s # ss) =
     then_do (compute (structure_text rp i s)) (\<lambda>t.
     then_do (py_print t) (\<lambda>_.
     print_structures rp (Suc i) ss))"

definition step5 :: "(json \<Rightarrow> string) \<Rightarrow> backend \<Rightarrow> unit prog" where
  "step5 rp b =
     then_do (py_print banner5) (\<lambda>_.
     then_do (http b structures_request) (\<lambda>response.
     then_do (py_print (status_text response)) (\<lambda>_.
     then_do (compute (json_result response)) (\<lambda>data.
     then_do (compute (py_get data ''structures'' (JList []))) (\<lambda>structures.
     then_do (compute (py_len structures)) (\<lambda>n.
     then_do (py_print (''   Total Structures: '' @ py_str_int (int n))) (\<lambda>_.
     then_do (compute (py_iter structures)) (\<lambda>items.
     then_do (print_structures rp 0 items) (\<lambda>_.
     py_print [])))))))))"

subsection \<open>The \<^verbatim>\<open>try\<close> block and its handler\<close>

fun seq_steps :: "unit prog list \<Rightarrow> unit prog" where
  "seq_steps [] = succeed ()"
| "seq_steps (s # ss) = then_do s (\<lambda>_. seq_steps ss)"

definition steps :: "(json \<Rightarrow> string) \<Rightarrow> backend \<Rightarrow> unit prog list" where
  "steps rp b = [step1 rp b, step2 rp b, step3 rp b, step4 rp b, step5 rp b]"

definition try_body :: "(json \<Rightarrow> string) \<Rightarrow> backend \<Rightarrow> unit prog" where
  "try_body rp b = then_do (seq_steps (steps rp b)) (\<lambda>_. py_print success_text)"

text \<open>
  How the process ends: the block ran to its end; the handler caught an exception; or the
  exception was not an \<^verbatim>\<open>Exception\<close>, passed the handler and left the process.
\<close>

datatype outcome = Finished | Caught exc | Uncaught exc

record run = world +
  outcome :: outcome

definition start :: world where
  "start = snd (py_print header_text \<lparr>calls = [], out = []\<rparr>)"

definition script :: "(json \<Rightarrow> string) \<Rightarrow> backend \<Rightarrow> run" where
  "script rp b =
     (case try_body rp b start of
        (Inr _, w) \<Rightarrow> \<lparr>calls = calls w, out = out w, outcome = Finished\<rparr>
      | (Inl e, w) \<Rightarrow>
          if isinstance_Exception e
          then \<lparr>calls = calls w, out = out w @ [failure_text e], outcome = Caught e\<rparr>
          else \<lparr>calls = calls w, out = out w, outcome = Uncaught e\<rparr>)"

text \<open>
  The status of a process that an exception leaves: a \<^verbatim>\<open>SystemExit\<close> gives its own, an
  interrupt or any other exception a status other than 0 (a traceback and status 1, or the
  death by the signal).
\<close>

fun uncaught_status_0 :: "exc_class \<Rightarrow> bool" where
  "uncaught_status_0 (SystemExit s) = (s = 0)"
| "uncaught_status_0 c = False"

definition exits_with_status_0 :: "run \<Rightarrow> bool" where
  "exits_with_status_0 r =
     (case outcome r of Uncaught e \<Rightarrow> uncaught_status_0 (exc_class_of e) | _ \<Rightarrow> True)"

definition is_failure_message :: "string \<Rightarrow> bool" where
  "is_failure_message t = prefix failure_prefix t"

section \<open>What the properties are stated with\<close>

text \<open>The \<^verbatim>\<open>email\<close> field of the payload a request carries.\<close>

definition payload_email :: "request \<Rightarrow> json option" where
  "payload_email r =
     (case json_body r of Some (JObj kvs) \<Rightarrow> map_of kvs ''email'' | _ \<Rightarrow> None)"

text \<open>A backend with every status code replaced: \<open>f\<close> picks the new code from the request
  and the old code.\<close>

definition with_status :: "(request \<Rightarrow> int \<Rightarrow> int) \<Rightarrow> backend \<Rightarrow> backend" where
  "with_status f b r =
     (case b r of
        Inl e \<Rightarrow> Inl e
      | Inr resp \<Rightarrow> Inr (resp\<lparr>status_code := f r (status_code resp)\<rparr>))"

text \<open>
  A status line is the text a step prints for a status code. \<open>without_code\<close> leaves the
  code out of a status line and keeps every other text as it is; \<open>status_lines\<close> are the
  status lines of the responses a backend gives to a list of requests, a request that
  raises giving none. Two worlds are the \<open>same_but_codes\<close> when they hold the same calls and
  their outputs differ at most in the codes of the status lines.
\<close>

definition is_status_line :: "string \<Rightarrow> bool" where
  "is_status_line t = prefix ''   Status: '' t"

definition without_code :: "string \<Rightarrow> string" where
  "without_code t = (if is_status_line t then ''   Status: '' else t)"

definition status_lines :: "backend \<Rightarrow> request list \<Rightarrow> string list" where
  "status_lines b rs =
     concat (map (\<lambda>r. case b r of
                         Inl e \<Rightarrow> []
                       | Inr resp \<Rightarrow> [''   Status: '' @ py_str_int (status_code resp)]) rs)"

definition same_but_codes :: "world \<Rightarrow> world \<Rightarrow> bool" where
  "same_but_codes w1 w2 =
     (calls w1 = calls w2 \<and> map without_code (out w1) = map without_code (out w2))"



subsection \<open>The listing, as the specification words it\<close>

text \<open>
  The specification describes a line of step 5 by the entry's \<^verbatim>\<open>name\<close> and the length of
  its nested \<^verbatim>\<open>data.nodes\<close>, each defaulted when absent. \<open>entry_ok\<close> is the shape under
  which these words have a meaning: the entry is an object, its \<^verbatim>\<open>data\<close> (if present) is
  an object, and \<^verbatim>\<open>data.nodes\<close> (if present) has a length.
\<close>

fun sized :: "json \<Rightarrow> bool" where
  "sized (JList xs) = True"
| "sized (JObj kvs) = True"
| "sized (JStr s) = True"
| "sized v = False"

fun size_of :: "json \<Rightarrow> nat" where
  "size_of (JList xs) = length xs"
| "size_of (JObj kvs) = length kvs"
| "size_of (JStr s) = length (codepoints s)"
| "size_of v = 0"

fun field :: "json \<Rightarrow> string \<Rightarrow> json option" where
  "field (JObj kvs) k = map_of kvs k"
| "field v k = None"

fun is_object :: "json \<Rightarrow> bool" where
  "is_object (JObj kvs) = True"
| "is_object v = False"

definition entry_ok :: "json \<Rightarrow> bool" where
  "entry_ok s =
     (is_object s \<and>
      (case field s ''data'' of
         None \<Rightarrow> True
       | Some d \<Rightarrow> is_object d \<and> (case field d ''nodes'' of None \<Rightarrow> True | Some ns \<Rightarrow> sized ns)))"

definition entry_name :: "json \<Rightarrow> json" where
  "entry_name s = (case field s ''name'' of None \<Rightarrow> JNull | Some v \<Rightarrow> v)"

definition entry_node_count :: "json \<Rightarrow> nat" where
  "entry_node_count s =
     (case field s ''data'' of
        None \<Rightarrow> 0
      | Some d \<Rightarrow> (case field d ''nodes'' of None \<Rightarrow> 0 | Some ns \<Rightarrow> size_of ns))"

definition entry_line :: "(json \<Rightarrow> string) \<Rightarrow> nat \<Rightarrow> json \<Rightarrow> string" where
  "entry_line rp i s =
     ''   ['' @ dec_nat (i + 1) @ ''] '' @ py_str rp (entry_name s) @
     '' ('' @ dec_nat (entry_node_count s) @ '' nodes)''"

definition entry_lines :: "(json \<Rightarrow> string) \<Rightarrow> nat \<Rightarrow> json list \<Rightarrow> string list" where
  "entry_lines rp i xs = map (\<lambda>js. entry_line rp (fst js) (snd js)) (enumerate i xs)"

subsection \<open>A field read with a default\<close>

text \<open>What \<^verbatim>\<open>v.get(k, d)\<close> stands for in the specification: the field \<open>k\<close> of \<open>v\<close>, or \<open>d\<close> when
  \<open>v\<close> has no such field.\<close>

definition get_or :: "json \<Rightarrow> string \<Rightarrow> json \<Rightarrow> json" where
  "get_or v k d = (case field v k of None \<Rightarrow> d | Some x \<Rightarrow> x)"

subsection \<open>Backends and a \<^verbatim>\<open>repr\<close> to run the script on\<close>

definition sample_repr :: "json \<Rightarrow> string" where
  "sample_repr v = ''<repr>''"

definition answer :: "int \<Rightarrow> json \<Rightarrow> exc + response" where
  "answer c body = Inr \<lparr>status_code = c, json_result = Inr body\<rparr>"

definition empty_backend :: "int \<Rightarrow> backend" where
  "empty_backend c r = answer c (JObj [])"





definition null_entry_backend :: backend where
  "null_entry_backend r = answer 200 (JObj [(''structures'', JList [JNull])])"

definition water_entry :: json where
  "water_entry =
     JObj [(''name'', JStr ''Water''),
           (''data'', JObj [(''nodes'', JList [JObj [], JObj [], JObj []])])]"

definition water_backend :: backend where
  "water_backend r = answer 200 (JObj [(''structures'', JList [water_entry])])"

definition server_error_backend :: backend where
  "server_error_backend = with_status (\<lambda>r c. 500) (empty_backend 200)"


definition exiting_backend :: "nat \<Rightarrow> backend" where
  "exiting_backend s r = Inl (Raised (SystemExit s) [])"

definition null_user_backend :: backend where
  "null_user_backend r = answer 200 (JObj [(''user'', JNull)])"

definition partial_user :: json where
  "partial_user = JObj [(''user'', JObj [(''email'', JStr ''john@example.com'')])]"

definition partial_user_backend :: backend where
  "partial_user_backend r = answer 200 partial_user"


section \<open>Properties\<close>

subsection \<open>Evaluation\<close>

lemmas prog_defs = then_do_def py_print_def http_def compute_def succeed_def

lemma py_str_int_nat: "py_str_int (int n) = dec_nat n"
  by (simp add: py_str_int_def)

lemma dec_nat_digit: "n < 10 \<Longrightarrow> dec_nat n = [digit_char n]"
  by (simp add: dec_nat.simps)


lemma py_str_int_Suc: "py_str_int (1 + int i) = dec_nat (Suc i)"
  by (simp add: py_str_int_def nat_add_distrib)

lemma dec_nat_200: "dec_nat 200 = ''200''"
  by (simp add: dec_nat.simps digit_char_def)

lemma dec_nat_500: "dec_nat 500 = ''500''"
  by (simp add: dec_nat.simps digit_char_def)

lemmas text_defs =
  login_text_def profile_text_def saved_text_def structure_text_def and_then_def status_text_def

lemmas step_defs = step1_def step2_def step3_def step4_def step5_def

subsection \<open>Each step makes its one call\<close>

lemma print_structures_calls:
  "print_structures rp i xs w = (r, w') \<Longrightarrow> calls w' = calls w"
proof (induction xs arbitrary: i w)
  case Nil
  then show ?case by (simp add: succeed_def)
next
  case (Cons s ss)
  show ?case
  proof (cases "structure_text rp i s")
    case (Inl e)
    with Cons.prems show ?thesis by (simp add: prog_defs)
  next
    case (Inr t)
    with Cons.prems have "print_structures rp (Suc i) ss (w\<lparr>out := out w @ [t]\<rparr>) = (r, w')"
      by (simp add: prog_defs)
    from Cons.IH [OF this] show ?thesis by simp
  qed
qed

lemma step1_calls: "step1 rp b w = (r, w') \<Longrightarrow> calls w' = calls w @ [register_request]"
  by (auto simp: step1_def prog_defs split: sum.splits)

lemma step2_calls: "step2 rp b w = (r, w') \<Longrightarrow> calls w' = calls w @ [login_request]"
  by (auto simp: step2_def prog_defs split: sum.splits)

lemma step3_calls: "step3 rp b w = (r, w') \<Longrightarrow> calls w' = calls w @ [profile_request]"
  by (auto simp: step3_def prog_defs split: sum.splits)

lemma step4_calls: "step4 rp b w = (r, w') \<Longrightarrow> calls w' = calls w @ [save_structure_request]"
  by (auto simp: step4_def prog_defs split: sum.splits)

lemma step5_calls: "step5 rp b w = (r, w') \<Longrightarrow> calls w' = calls w @ [structures_request]"
  by (auto simp: step5_def prog_defs split: sum.splits prod.splits dest!: print_structures_calls)

lemma length_five_requests: "length five_requests = 5"
  by (simp add: five_requests_def)

lemma length_steps: "length (steps rp b) = 5"
  by (simp add: steps_def)

lemma steps_nth_calls:
  assumes "k < 5" and "(steps rp b ! k) w = (r, w')"
  shows "calls w' = calls w @ [five_requests ! k]"
proof -
  from assms(1) consider "k = 0" | "k = 1" | "k = 2" | "k = 3" | "k = 4" by linarith
  then show ?thesis
  proof cases
    case 1 with assms(2) show ?thesis by (simp add: steps_def five_requests_def step1_calls)
  next
    case 2 with assms(2) show ?thesis by (simp add: steps_def five_requests_def step2_calls)
  next
    case 3 with assms(2) show ?thesis by (simp add: steps_def five_requests_def step3_calls)
  next
    case 4 with assms(2) show ?thesis by (simp add: steps_def five_requests_def step4_calls)
  next
    case 5 with assms(2) show ?thesis by (simp add: steps_def five_requests_def step5_calls)
  qed
qed

lemma seq_steps_append:
  "seq_steps (xs @ ys) w =
     (case seq_steps xs w of (Inl e, w') \<Rightarrow> (Inl e, w') | (Inr u, w') \<Rightarrow> seq_steps ys w')"
  by (induction xs arbitrary: w) (auto simp: prog_defs split: sum.splits prod.splits)

lemma then_do_succeed: "then_do m succeed = m"
  by (rule ext) (auto simp: then_do_def succeed_def split: sum.splits prod.splits)

lemma seq_steps_invariant:
  assumes "\<And>s v. s \<in> set ss \<Longrightarrow> I v \<Longrightarrow> I (snd (s v))" and "I w"
  shows "I (snd (seq_steps ss w))"
  using assms
proof (induction ss arbitrary: w)
  case Nil
  then show ?case by (simp add: succeed_def)
next
  case (Cons s ss)
  obtain r1 w1 where s: "s w = (r1, w1)" by (cases "s w")
  from Cons.prems(1) [of s w] Cons.prems(2) s have i: "I w1" by simp
  show ?case
  proof (cases r1)
    case (Inl e)
    with s i show ?thesis by (simp add: then_do_def)
  next
    case (Inr u)
    have "I (snd (seq_steps ss w1))"
      using Cons.IH [of w1] Cons.prems(1) i by simp
    with s Inr show ?thesis by (simp add: then_do_def)
  qed
qed

lemma seq_steps_take_calls:
  "k \<le> 5 \<Longrightarrow> seq_steps (take k (steps rp b)) w = (Inr u, w') \<Longrightarrow>
     calls w' = calls w @ take k five_requests"
proof (induction k arbitrary: w' u)
  case 0
  then show ?case by (simp add: succeed_def)
next
  case (Suc k)
  then have k: "k < 5" by simp
  have tk: "take (Suc k) (steps rp b) = take k (steps rp b) @ [steps rp b ! k]"
    using k by (simp add: take_Suc_conv_app_nth length_steps)
  obtain r1 w1 where s1: "seq_steps (take k (steps rp b)) w = (r1, w1)"
    by (cases "seq_steps (take k (steps rp b)) w")
  with Suc.prems(2) tk obtain u1 where r1: "r1 = Inr u1"
    by (cases r1) (auto simp: seq_steps_append)
  from Suc.prems(2) tk s1 r1 have sk: "(steps rp b ! k) w1 = (Inr u, w')"
    by (simp add: seq_steps_append then_do_succeed)
  have "calls w1 = calls w @ take k five_requests"
    using Suc.IH [of u1 w1] k s1 r1 by simp
  moreover have "calls w' = calls w1 @ [five_requests ! k]"
    using steps_nth_calls [OF k sk] .
  moreover have "take (Suc k) five_requests = take k five_requests @ [five_requests ! k]"
    using k by (simp add: take_Suc_conv_app_nth length_five_requests)
  ultimately show ?case by simp
qed

lemma calls_start: "calls start = []"
  by (simp add: start_def py_print_def)

subsection \<open>The order of the calls\<close>

lemma finished_calls:
  "outcome (script rp b) = Finished \<Longrightarrow> calls (script rp b) = five_requests"
proof -
  assume fin: "outcome (script rp b) = Finished"
  obtain r w where tb: "try_body rp b start = (r, w)" by (cases "try_body rp b start")
  obtain r5 w5 where ss: "seq_steps (steps rp b) start = (r5, w5)"
    by (cases "seq_steps (steps rp b) start")
  from fin tb obtain u where r: "r = Inr u"
    by (cases r) (auto simp: script_def split: if_splits)
  from tb ss r obtain u5 where r5: "r5 = Inr u5" and w: "calls w = calls w5"
    by (cases r5) (auto simp: try_body_def prog_defs)
  have "seq_steps (take 5 (steps rp b)) start = (Inr u5, w5)"
    using ss r5 by (simp add: length_steps)
  from seq_steps_take_calls [OF _ this] have "calls w5 = five_requests"
    by (simp add: calls_start length_five_requests)
  with tb r w show ?thesis by (simp add: script_def)
qed

text \<open>
  C1. When no step raises, so that the \<^verbatim>\<open>try\<close> block runs to its end, the script has made
  exactly five HTTP calls: register, login, get-profile, save-structure and
  get-structures, in this order, and no other call.
\<close>

theorem finished_run_makes_the_five_calls:
  "outcome (script rp b) = Finished \<Longrightarrow> calls (script rp b) = five_requests"
  by (rule finished_calls)

lemma empty_run_finished: "outcome (script sample_repr (empty_backend c)) = Finished"
  by (simp add: script_def try_body_def steps_def step_defs text_defs prog_defs start_def
      empty_backend_def answer_def py_str_int_nat dec_nat_digit)

theorem finished_run_makes_the_five_calls_witness:
  "outcome (script sample_repr (empty_backend 200)) = Finished \<and>
   calls (script sample_repr (empty_backend 200)) = five_requests"
  using finished_run_makes_the_five_calls [of sample_repr "empty_backend 200"]
  by (simp add: empty_run_finished)

subsection \<open>The first exception ends the run\<close>

lemma not_failure_space [simp]: "\<not> is_failure_message (CHR '' '' # t)"
  by (simp add: is_failure_message_def failure_prefix_def cross_mark_def)

lemma not_failure_empty [simp]: "\<not> is_failure_message []"
  by (simp add: is_failure_message_def failure_prefix_def cross_mark_def)

lemma not_failure_banner [simp]:
  "\<not> is_failure_message banner1" "\<not> is_failure_message banner2"
  "\<not> is_failure_message banner3" "\<not> is_failure_message banner4"
  "\<not> is_failure_message banner5" "\<not> is_failure_message header_text"
  "\<not> is_failure_message success_text"
  by (simp_all add: is_failure_message_def failure_prefix_def cross_mark_def banner1_def
      banner2_def banner3_def banner4_def banner5_def header_text_def success_text_def
      check_mark_def)

lemma not_failure_status [simp]: "\<not> is_failure_message (status_text resp)"
  by (simp add: status_text_def)




















subsection \<open>What the handler catches\<close>




















text \<open>
  A \<^verbatim>\<open>SystemExit\<close> passes the handler as well; the process then ends with the status the
  exception carries, which is 0 for \<^verbatim>\<open>SystemExit()\<close> and \<^verbatim>\<open>SystemExit(0)\<close>.
\<close>

lemma system_exit_passes_handler:
  "outcome (script sample_repr (exiting_backend s)) = Uncaught (Raised (SystemExit s) []) \<and>
   exits_with_status_0 (script sample_repr (exiting_backend s)) = (s = 0)"
  by (simp add: exits_with_status_0_def script_def try_body_def steps_def step1_def prog_defs
      start_def exiting_backend_def isinstance_Exception_def)

subsection \<open>The lines of the listing\<close>

lemma py_get_object:
  "is_object d \<Longrightarrow> py_get d k dflt = Inr (case field d k of None \<Rightarrow> dflt | Some v \<Rightarrow> v)"
  by (cases d) auto

lemma py_get_not_object: "\<not> is_object d \<Longrightarrow> \<exists>e. py_get d k dflt = Inl e"
  by (cases d) auto

lemma py_len_sized: "sized v \<Longrightarrow> py_len v = Inr (size_of v)"
  by (cases v) auto

lemma py_len_not_sized: "\<not> sized v \<Longrightarrow> \<exists>e. py_len v = Inl e"
  by (cases v) auto

lemma structure_text_ok:
  assumes "entry_ok s"
  shows "structure_text rp i s = Inr (entry_line rp i s)"
proof -
  from assms have o: "is_object s" by (simp add: entry_ok_def)
  show ?thesis
  proof (cases "field s ''data''")
    case None
    with o show ?thesis
      by (simp add: structure_text_def and_then_def py_get_object entry_line_def
          entry_name_def entry_node_count_def py_str_int_nat py_str_int_Suc)
  next
    case (Some d)
    with assms have d: "is_object d" by (simp add: entry_ok_def)
    show ?thesis
    proof (cases "field d ''nodes''")
      case None
      with o d Some show ?thesis
        by (simp add: structure_text_def and_then_def py_get_object entry_line_def
            entry_name_def entry_node_count_def py_str_int_nat py_str_int_Suc)
    next
      case (Some ns)
      with assms \<open>field s ''data'' = Some d\<close> have "sized ns" by (simp add: entry_ok_def)
      with o d Some \<open>field s ''data'' = Some d\<close> show ?thesis
        by (simp add: structure_text_def and_then_def py_get_object py_len_sized entry_line_def
            entry_name_def entry_node_count_def py_str_int_nat py_str_int_Suc)
    qed
  qed
qed

lemma structure_text_not_ok:
  assumes "\<not> entry_ok s"
  shows "\<exists>e. structure_text rp i s = Inl e"
proof (cases "is_object s")
  case False
  from py_get_not_object [OF False] obtain e where "py_get s ''name'' JNull = Inl e" by blast
  then show ?thesis by (simp add: structure_text_def and_then_def)
next
  case True
  note o = True
  show ?thesis
  proof (cases "field s ''data''")
    case None
    with assms o show ?thesis by (simp add: entry_ok_def)
  next
    case (Some d)
    note sd = Some
    show ?thesis
    proof (cases "is_object d")
      case False
      from py_get_not_object [OF False] obtain e where
        "py_get d ''nodes'' (JList []) = Inl e" by blast
      with o sd show ?thesis by (simp add: structure_text_def and_then_def py_get_object)
    next
      case True
      note d = True
      show ?thesis
      proof (cases "field d ''nodes''")
        case None
        with assms o sd d show ?thesis by (simp add: entry_ok_def)
      next
        case (Some ns)
        with assms o sd d have "\<not> sized ns" by (simp add: entry_ok_def)
        from py_len_not_sized [OF this] obtain e where "py_len ns = Inl e" by blast
        with o sd d Some show ?thesis
          by (simp add: structure_text_def and_then_def py_get_object)
      qed
    qed
  qed
qed

lemma print_structures_lines:
  "print_structures rp i xs w = (r, w') \<Longrightarrow>
     out w' = out w @ entry_lines rp i (takeWhile entry_ok xs) \<and>
     calls w' = calls w \<and>
     ((\<exists>e. r = Inl e) \<longleftrightarrow> \<not> list_all entry_ok xs)"
proof (induction xs arbitrary: i w)
  case Nil
  then show ?case by (auto simp: succeed_def entry_lines_def)
next
  case (Cons s ss)
  show ?case
  proof (cases "entry_ok s")
    case True
    from Cons.prems structure_text_ok [OF True, of rp i]
    have "print_structures rp (Suc i) ss (w\<lparr>out := out w @ [entry_line rp i s]\<rparr>) = (r, w')"
      by (simp add: prog_defs)
    from Cons.IH [OF this] True show ?thesis by (simp add: entry_lines_def)
  next
    case False
    from structure_text_not_ok [OF False, of rp i] obtain e where
      "structure_text rp i s = Inl e" by blast
    with Cons.prems False show ?thesis by (auto simp: prog_defs entry_lines_def)
  qed
qed

text \<open>
  C4 (amended). For a step-5 response whose body is an object with a \<^verbatim>\<open>structures\<close> array,
  the printed count is the length of the array. One line is printed for each entry up to
  the first one that is not of the shape \<open>entry_ok\<close>, numbered from 1 in array order, with
  the entry's name and the length of its \<^verbatim>\<open>data.nodes\<close> (\<^verbatim>\<open>None\<close> and 0 when absent). When
  every entry has that shape these are exactly as many lines as the array has entries, and
  the closing empty line follows; otherwise the step raises at the first entry that has
  not.
\<close>

theorem listing_prints_count_and_lines:
  assumes "b structures_request = Inr resp"
    and "json_result resp = Inr (JObj kvs)"
    and "map_of kvs ''structures'' = Some (JList xs)"
  shows "out (snd (step5 rp b w)) =
           out w @ [banner5, status_text resp, ''   Total Structures: '' @ dec_nat (length xs)] @
           entry_lines rp 0 (takeWhile entry_ok xs) @
           (if list_all entry_ok xs then [[]] else []) \<and>
         ((\<exists>e. fst (step5 rp b w) = Inl e) \<longleftrightarrow> \<not> list_all entry_ok xs) \<and>
         (list_all entry_ok xs \<longrightarrow> length (entry_lines rp 0 (takeWhile entry_ok xs)) = length xs)"
proof -
  let ?w1 = "w\<lparr>calls := calls w @ [structures_request],
      out := out w @ [banner5, status_text resp, ''   Total Structures: '' @ dec_nat (length xs)]\<rparr>"
  obtain r w' where ps: "print_structures rp 0 xs ?w1 = (r, w')"
    by (cases "print_structures rp 0 xs ?w1")
  note l = print_structures_lines [OF ps]
  have s5: "step5 rp b w =
      (case r of Inl e \<Rightarrow> (Inl e, w') | Inr u \<Rightarrow> (Inr (), w'\<lparr>out := out w' @ [[]]\<rparr>))"
    using assms ps by (simp add: step5_def prog_defs py_str_int_nat split: sum.splits)
  have tw: "list_all entry_ok xs \<Longrightarrow> takeWhile entry_ok xs = xs"
    by (simp add: list_all_iff)
  show ?thesis
  proof (cases r)
    case (Inl e)
    with l s5 show ?thesis by auto
  next
    case (Inr u)
    with l have a: "list_all entry_ok xs" by auto
    then have t: "takeWhile entry_ok xs = xs" by (rule tw)
    from l have o: "out w' = out ?w1 @ entry_lines rp 0 (takeWhile entry_ok xs)" by simp
    from s5 Inr have "out (snd (step5 rp b w)) = out w' @ [[]]" and "fst (step5 rp b w) = Inr ()"
      by simp_all
    with o a show ?thesis unfolding t by (simp add: entry_lines_def)
  qed
qed

text \<open>
  With the body \<^verbatim>\<open>{"structures": [null]}\<close> the count printed is 1 and no line follows: the
  step raises on the entry.
\<close>

theorem null_entry_prints_no_line:
  "step5 sample_repr null_entry_backend \<lparr>calls = [], out = []\<rparr> =
     (Inl (Raised AttributeError
        ([CHR 0x27] @ ''NoneType'' @ [CHR 0x27] @ '' object has no attribute '' @
         [CHR 0x27] @ ''get'' @ [CHR 0x27])),
      \<lparr>calls = [structures_request],
       out = [banner5, ''   Status: 200'', ''   Total Structures: 1'']\<rparr>)"
  by (simp add: step5_def prog_defs text_defs null_entry_backend_def answer_def
      py_str_int_def dec_nat_200 dec_nat_digit digit_char_def)

lemma water_entry_ok: "entry_ok water_entry"
  by (simp add: entry_ok_def water_entry_def)

lemma water_entry_line: "entry_line rp 0 water_entry = ''   [1] Water (3 nodes)''"
  by (simp add: entry_line_def entry_name_def entry_node_count_def water_entry_def
      dec_nat_digit digit_char_def)

theorem listing_prints_count_and_lines_witness:
  "out (snd (step5 sample_repr water_backend \<lparr>calls = [], out = []\<rparr>)) =
     [banner5, ''   Status: 200'', ''   Total Structures: 1'', ''   [1] Water (3 nodes)'', []] \<and>
   \<not> (\<exists>e. fst (step5 sample_repr water_backend \<lparr>calls = [], out = []\<rparr>) = Inl e)"
proof -
  have h1: "water_backend structures_request =
      Inr \<lparr>status_code = 200, json_result = Inr (JObj [(''structures'', JList [water_entry])])\<rparr>"
    by (simp add: water_backend_def answer_def)
  have h2: "json_result \<lparr>status_code = 200,
      json_result = Inr (JObj [(''structures'', JList [water_entry])])\<rparr> =
      Inr (JObj [(''structures'', JList [water_entry])])"
    by simp
  have h3: "map_of [(''structures'', JList [water_entry])] ''structures'' =
      Some (JList [water_entry])"
    by simp
  have l: "entry_lines sample_repr 0 (takeWhile entry_ok [water_entry]) =
      [''   [1] Water (3 nodes)'']"
    by (simp add: entry_lines_def water_entry_ok water_entry_line)
  have a: "list_all entry_ok [water_entry]"
    by (simp add: water_entry_ok)
  have s: "status_text \<lparr>status_code = 200,
      json_result = Inr (JObj [(''structures'', JList [water_entry])])\<rparr> = ''   Status: 200''"
    by (simp add: status_text_def py_str_int_def dec_nat_200)
  have t: "''   Total Structures: '' @ dec_nat (length [water_entry]) = ''   Total Structures: 1''"
    by (simp add: dec_nat_digit digit_char_def)
  note r = listing_prints_count_and_lines [where b = water_backend and xs = "[water_entry]" and rp = sample_repr
      and kvs = "[(''structures'', JList [water_entry])]"
      and resp = "\<lparr>status_code = 200,
        json_result = Inr (JObj [(''structures'', JList [water_entry])])\<rparr>"
      and w = "\<lparr>calls = [], out = []\<rparr>", OF h1 h2 h3]
  show ?thesis
    using r a unfolding l s t by simp
qed

subsection \<open>Missing fields\<close>

lemma py_get_get_or: "is_object v \<Longrightarrow> py_get v k d = Inr (get_or v k d)"
  by (simp add: py_get_object get_or_def)

lemma py_get_AttributeError:
  "\<not> is_object v \<Longrightarrow>
     py_get v k d =
       Inl (Raised AttributeError
         ([CHR 0x27] @ py_type_name v @ [CHR 0x27] @ '' object has no attribute '' @
          [CHR 0x27] @ ''get'' @ [CHR 0x27]))"
  by (cases v) simp_all

lemma login_text_defaults:
  assumes "is_object data" and "is_object (get_or data ''user'' (JObj []))"
  shows "login_text rp data =
     Inr (''   User: '' @ py_str rp (get_or (get_or data ''user'' (JObj [])) ''email'' JNull) @
          '' - '' @ py_str rp (get_or (get_or data ''user'' (JObj [])) ''fullName'' JNull))"
  using assms by (simp add: login_text_def and_then_def py_get_get_or)

lemma login_text_AttributeError:
  assumes "\<not> (is_object data \<and> is_object (get_or data ''user'' (JObj [])))"
  shows "\<exists>t. login_text rp data = Inl (Raised AttributeError t)"
proof (cases "is_object data")
  case False
  then show ?thesis by (simp add: login_text_def and_then_def py_get_AttributeError)
next
  case True
  with assms have "\<not> is_object (get_or data ''user'' (JObj []))" by simp
  with True show ?thesis
    by (simp add: login_text_def and_then_def py_get_get_or py_get_AttributeError)
qed

lemma profile_text_defaults:
  assumes "is_object data"
  shows "profile_text rp data =
     Inr (''   User: '' @ py_str rp (get_or data ''email'' JNull) @
          '' - '' @ py_str rp (get_or data ''fullName'' JNull))"
  using assms by (simp add: profile_text_def and_then_def py_get_get_or)

lemma profile_text_AttributeError:
  assumes "\<not> is_object data"
  shows "\<exists>t. profile_text rp data = Inl (Raised AttributeError t)"
  using assms by (simp add: profile_text_def and_then_def py_get_AttributeError)

lemma saved_text_defaults:
  assumes "is_object data" and "is_object (get_or data ''structure'' (JObj []))"
  shows "saved_text rp data =
     Inr (''   Structure: '' @
          py_str rp (get_or (get_or data ''structure'' (JObj [])) ''name'' JNull) @
          '' (ID: '' @ py_str rp (get_or (get_or data ''structure'' (JObj [])) ''id'' JNull) @
          '')'')"
  using assms by (simp add: saved_text_def and_then_def py_get_get_or)

lemma saved_text_AttributeError:
  assumes "\<not> (is_object data \<and> is_object (get_or data ''structure'' (JObj [])))"
  shows "\<exists>t. saved_text rp data = Inl (Raised AttributeError t)"
proof (cases "is_object data")
  case False
  then show ?thesis by (simp add: saved_text_def and_then_def py_get_AttributeError)
next
  case True
  with assms have "\<not> is_object (get_or data ''structure'' (JObj []))" by simp
  with True show ?thesis
    by (simp add: saved_text_def and_then_def py_get_get_or py_get_AttributeError)
qed

lemma step2_text:
  assumes "b login_request = Inr resp" and "json_result resp = Inr data"
  shows "step2 rp b w =
     (case login_text rp data of
        Inl e \<Rightarrow> (Inl e, w\<lparr>calls := calls w @ [login_request],
                    out := out w @ [banner2, ''   Status: '' @ py_str_int (status_code resp)]\<rparr>)
      | Inr t \<Rightarrow> (Inr (), w\<lparr>calls := calls w @ [login_request],
                    out := out w @ [banner2, ''   Status: '' @ py_str_int (status_code resp), t, []]\<rparr>))"
  using assms by (simp add: step2_def prog_defs status_text_def split: sum.splits)

lemma step3_text:
  assumes "b profile_request = Inr resp" and "json_result resp = Inr data"
  shows "step3 rp b w =
     (case profile_text rp data of
        Inl e \<Rightarrow> (Inl e, w\<lparr>calls := calls w @ [profile_request],
                    out := out w @ [banner3, ''   Status: '' @ py_str_int (status_code resp)]\<rparr>)
      | Inr t \<Rightarrow> (Inr (), w\<lparr>calls := calls w @ [profile_request],
                    out := out w @ [banner3, ''   Status: '' @ py_str_int (status_code resp), t, []]\<rparr>))"
  using assms by (simp add: step3_def prog_defs status_text_def split: sum.splits)

lemma step4_text:
  assumes "b save_structure_request = Inr resp" and "json_result resp = Inr data"
  shows "step4 rp b w =
     (case saved_text rp data of
        Inl e \<Rightarrow> (Inl e, w\<lparr>calls := calls w @ [save_structure_request],
                    out := out w @ [banner4, ''   Status: '' @ py_str_int (status_code resp)]\<rparr>)
      | Inr t \<Rightarrow> (Inr (), w\<lparr>calls := calls w @ [save_structure_request],
                    out := out w @ [banner4, ''   Status: '' @ py_str_int (status_code resp), t, []]\<rparr>))"
  using assms by (simp add: step4_def prog_defs status_text_def split: sum.splits)

lemma step5_no_structures:
  assumes "b structures_request = Inr resp" and "json_result resp = Inr data"
    and "is_object data" and "field data ''structures'' = None"
  shows "step5 rp b w =
     (Inr (), w\<lparr>calls := calls w @ [structures_request],
        out := out w @ [banner5, ''   Status: '' @ py_str_int (status_code resp),
                        ''   Total Structures: 0'', []]\<rparr>)"
  using assms
  by (simp add: step5_def prog_defs status_text_def py_get_object py_str_int_nat dec_nat_digit
      digit_char_def)

lemma step5_AttributeError:
  assumes "b structures_request = Inr resp" and "json_result resp = Inr data"
    and "\<not> is_object data"
  shows "\<exists>t. step5 rp b w =
     (Inl (Raised AttributeError t), w\<lparr>calls := calls w @ [structures_request],
        out := out w @ [banner5, ''   Status: '' @ py_str_int (status_code resp)]\<rparr>)"
  using assms
  by (simp add: step5_def prog_defs status_text_def py_get_AttributeError)

text \<open>
  A body whose \<^verbatim>\<open>user\<close> is \<^verbatim>\<open>null\<close> has no \<^verbatim>\<open>user.email\<close>, and reading it raises: \<^verbatim>\<open>get\<close> returns
  the \<^verbatim>\<open>None\<close> that is there, not its default, and \<^verbatim>\<open>None\<close> has no \<^verbatim>\<open>get\<close>. The run ends in
  the handler after the second call.
\<close>

theorem null_user_raises:
  "login_text sample_repr (JObj [(''user'', JNull)]) =
     Inl (Raised AttributeError
       ([CHR 0x27] @ ''NoneType'' @ [CHR 0x27] @ '' object has no attribute '' @
        [CHR 0x27] @ ''get'' @ [CHR 0x27])) \<and>
   outcome (script sample_repr null_user_backend) =
     Caught (Raised AttributeError
       ([CHR 0x27] @ ''NoneType'' @ [CHR 0x27] @ '' object has no attribute '' @
        [CHR 0x27] @ ''get'' @ [CHR 0x27])) \<and>
   calls (script sample_repr null_user_backend) = [register_request, login_request]"
  by (simp add: script_def try_body_def steps_def step_defs text_defs prog_defs start_def
      null_user_backend_def answer_def isinstance_Exception_def)

text \<open>
  C5 (amended). Reading a field of an object never raises: \<^verbatim>\<open>get\<close> yields the field, or its
  default when the field is absent, and an absent \<^verbatim>\<open>email\<close>, \<^verbatim>\<open>fullName\<close>, \<^verbatim>\<open>name\<close> or \<^verbatim>\<open>id\<close>
  is printed as \<^verbatim>\<open>None\<close>. So when the body is an object and \<^verbatim>\<open>user\<close> (or \<^verbatim>\<open>structure\<close>) is
  absent or an object, steps 2, 3 and 4 print their line with each field or its default
  and succeed; an object without \<^verbatim>\<open>structures\<close> gives the count 0 and no line; an entry of
  the shape \<open>entry_ok\<close> gives its line with the name or \<^verbatim>\<open>None\<close> and the number of nodes or 0.
  Reading a field of anything but an object raises an \<^verbatim>\<open>AttributeError\<close>: when the body is
  not an object, or \<^verbatim>\<open>user\<close> (or \<^verbatim>\<open>structure\<close>) is present and not an object, the step raises
  after its status line, and an entry that is not of the shape \<open>entry_ok\<close> raises too.
\<close>

theorem absent_fields_render_as_defaults:
  "(is_object v \<longrightarrow> py_get v k d = Inr (get_or v k d)) \<and>
   (field v k = None \<longrightarrow> get_or v k d = d) \<and>
   py_str rp JNull = ''None'' \<and>
   (\<not> is_object v \<longrightarrow> (\<exists>t. py_get v k d = Inl (Raised AttributeError t))) \<and>
   (b login_request = Inr resp \<and> json_result resp = Inr data \<and>
    is_object data \<and> is_object (get_or data ''user'' (JObj [])) \<longrightarrow>
      step2 rp b w =
        (Inr (), w\<lparr>calls := calls w @ [login_request],
           out := out w @
             [banner2, ''   Status: '' @ py_str_int (status_code resp),
              ''   User: '' @
                py_str rp (get_or (get_or data ''user'' (JObj [])) ''email'' JNull) @ '' - '' @
                py_str rp (get_or (get_or data ''user'' (JObj [])) ''fullName'' JNull),
              []]\<rparr>)) \<and>
   (b login_request = Inr resp \<and> json_result resp = Inr data \<and>
    \<not> (is_object data \<and> is_object (get_or data ''user'' (JObj []))) \<longrightarrow>
      (\<exists>t. step2 rp b w =
        (Inl (Raised AttributeError t), w\<lparr>calls := calls w @ [login_request],
           out := out w @ [banner2, ''   Status: '' @ py_str_int (status_code resp)]\<rparr>))) \<and>
   (b profile_request = Inr resp \<and> json_result resp = Inr data \<and> is_object data \<longrightarrow>
      step3 rp b w =
        (Inr (), w\<lparr>calls := calls w @ [profile_request],
           out := out w @
             [banner3, ''   Status: '' @ py_str_int (status_code resp),
              ''   User: '' @ py_str rp (get_or data ''email'' JNull) @ '' - '' @
                py_str rp (get_or data ''fullName'' JNull),
              []]\<rparr>)) \<and>
   (b profile_request = Inr resp \<and> json_result resp = Inr data \<and> \<not> is_object data \<longrightarrow>
      (\<exists>t. step3 rp b w =
        (Inl (Raised AttributeError t), w\<lparr>calls := calls w @ [profile_request],
           out := out w @ [banner3, ''   Status: '' @ py_str_int (status_code resp)]\<rparr>))) \<and>
   (b save_structure_request = Inr resp \<and> json_result resp = Inr data \<and>
    is_object data \<and> is_object (get_or data ''structure'' (JObj [])) \<longrightarrow>
      step4 rp b w =
        (Inr (), w\<lparr>calls := calls w @ [save_structure_request],
           out := out w @
             [banner4, ''   Status: '' @ py_str_int (status_code resp),
              ''   Structure: '' @
                py_str rp (get_or (get_or data ''structure'' (JObj [])) ''name'' JNull) @
                '' (ID: '' @
                py_str rp (get_or (get_or data ''structure'' (JObj [])) ''id'' JNull) @ '')'',
              []]\<rparr>)) \<and>
   (b save_structure_request = Inr resp \<and> json_result resp = Inr data \<and>
    \<not> (is_object data \<and> is_object (get_or data ''structure'' (JObj []))) \<longrightarrow>
      (\<exists>t. step4 rp b w =
        (Inl (Raised AttributeError t), w\<lparr>calls := calls w @ [save_structure_request],
           out := out w @ [banner4, ''   Status: '' @ py_str_int (status_code resp)]\<rparr>))) \<and>
   (b structures_request = Inr resp \<and> json_result resp = Inr data \<and>
    is_object data \<and> field data ''structures'' = None \<longrightarrow>
      step5 rp b w =
        (Inr (), w\<lparr>calls := calls w @ [structures_request],
           out := out w @
             [banner5, ''   Status: '' @ py_str_int (status_code resp),
              ''   Total Structures: 0'', []]\<rparr>)) \<and>
   (b structures_request = Inr resp \<and> json_result resp = Inr data \<and> \<not> is_object data \<longrightarrow>
      (\<exists>t. step5 rp b w =
        (Inl (Raised AttributeError t), w\<lparr>calls := calls w @ [structures_request],
           out := out w @ [banner5, ''   Status: '' @ py_str_int (status_code resp)]\<rparr>))) \<and>
   (entry_ok s \<longrightarrow>
      structure_text rp i s =
        Inr (''   ['' @ dec_nat (i + 1) @ ''] '' @ py_str rp (get_or s ''name'' JNull) @
             '' ('' @ dec_nat (size_of (get_or (get_or s ''data'' (JObj [])) ''nodes'' (JList []))) @
             '' nodes)'')) \<and>
   (\<not> entry_ok s \<longrightarrow> (\<exists>e. structure_text rp i s = Inl e))"
proof (intro conjI impI)
  show "py_get v k d = Inr (get_or v k d)" if "is_object v"
    using that by (rule py_get_get_or)
  show "get_or v k d = d" if "field v k = None"
    using that by (simp add: get_or_def)
  show "py_str rp JNull = ''None''" by simp
  show "\<exists>t. py_get v k d = Inl (Raised AttributeError t)" if "\<not> is_object v"
    using that by (simp add: py_get_AttributeError)
  show "step2 rp b w =
        (Inr (), w\<lparr>calls := calls w @ [login_request],
           out := out w @
             [banner2, ''   Status: '' @ py_str_int (status_code resp),
              ''   User: '' @
                py_str rp (get_or (get_or data ''user'' (JObj [])) ''email'' JNull) @ '' - '' @
                py_str rp (get_or (get_or data ''user'' (JObj [])) ''fullName'' JNull),
              []]\<rparr>)"
    if "b login_request = Inr resp \<and> json_result resp = Inr data \<and>
        is_object data \<and> is_object (get_or data ''user'' (JObj []))"
    using that by (simp add: step2_text login_text_defaults)
  show "\<exists>t. step2 rp b w =
        (Inl (Raised AttributeError t), w\<lparr>calls := calls w @ [login_request],
           out := out w @ [banner2, ''   Status: '' @ py_str_int (status_code resp)]\<rparr>)"
    if h: "b login_request = Inr resp \<and> json_result resp = Inr data \<and>
        \<not> (is_object data \<and> is_object (get_or data ''user'' (JObj [])))"
  proof -
    from h login_text_AttributeError [of data rp] obtain t where
      "login_text rp data = Inl (Raised AttributeError t)" by blast
    with h show ?thesis by (simp add: step2_text)
  qed
  show "step3 rp b w =
        (Inr (), w\<lparr>calls := calls w @ [profile_request],
           out := out w @
             [banner3, ''   Status: '' @ py_str_int (status_code resp),
              ''   User: '' @ py_str rp (get_or data ''email'' JNull) @ '' - '' @
                py_str rp (get_or data ''fullName'' JNull),
              []]\<rparr>)"
    if "b profile_request = Inr resp \<and> json_result resp = Inr data \<and> is_object data"
    using that by (simp add: step3_text profile_text_defaults)
  show "\<exists>t. step3 rp b w =
        (Inl (Raised AttributeError t), w\<lparr>calls := calls w @ [profile_request],
           out := out w @ [banner3, ''   Status: '' @ py_str_int (status_code resp)]\<rparr>)"
    if h: "b profile_request = Inr resp \<and> json_result resp = Inr data \<and> \<not> is_object data"
  proof -
    from h profile_text_AttributeError [of data rp] obtain t where
      "profile_text rp data = Inl (Raised AttributeError t)" by blast
    with h show ?thesis by (simp add: step3_text)
  qed
  show "step4 rp b w =
        (Inr (), w\<lparr>calls := calls w @ [save_structure_request],
           out := out w @
             [banner4, ''   Status: '' @ py_str_int (status_code resp),
              ''   Structure: '' @
                py_str rp (get_or (get_or data ''structure'' (JObj [])) ''name'' JNull) @
                '' (ID: '' @
                py_str rp (get_or (get_or data ''structure'' (JObj [])) ''id'' JNull) @ '')'',
              []]\<rparr>)"
    if "b save_structure_request = Inr resp \<and> json_result resp = Inr data \<and>
        is_object data \<and> is_object (get_or data ''structure'' (JObj []))"
    using that by (simp add: step4_text saved_text_defaults)
  show "\<exists>t. step4 rp b w =
        (Inl (Raised AttributeError t), w\<lparr>calls := calls w @ [save_structure_request],
           out := out w @ [banner4, ''   Status: '' @ py_str_int (status_code resp)]\<rparr>)"
    if h: "b save_structure_request = Inr resp \<and> json_result resp = Inr data \<and>
        \<not> (is_object data \<and> is_object (get_or data ''structure'' (JObj [])))"
  proof -
    from h saved_text_AttributeError [of data rp] obtain t where
      "saved_text rp data = Inl (Raised AttributeError t)" by blast
    with h show ?thesis by (simp add: step4_text)
  qed
  show "step5 rp b w =
        (Inr (), w\<lparr>calls := calls w @ [structures_request],
           out := out w @
             [banner5, ''   Status: '' @ py_str_int (status_code resp),
              ''   Total Structures: 0'', []]\<rparr>)"
    if "b structures_request = Inr resp \<and> json_result resp = Inr data \<and>
        is_object data \<and> field data ''structures'' = None"
    using that by (simp add: step5_no_structures)
  show "\<exists>t. step5 rp b w =
        (Inl (Raised AttributeError t), w\<lparr>calls := calls w @ [structures_request],
           out := out w @ [banner5, ''   Status: '' @ py_str_int (status_code resp)]\<rparr>)"
    if "b structures_request = Inr resp \<and> json_result resp = Inr data \<and> \<not> is_object data"
    using that step5_AttributeError [of b resp data rp w] by simp
  show "structure_text rp i s =
        Inr (''   ['' @ dec_nat (i + 1) @ ''] '' @ py_str rp (get_or s ''name'' JNull) @
             '' ('' @ dec_nat (size_of (get_or (get_or s ''data'' (JObj [])) ''nodes'' (JList []))) @
             '' nodes)'')"
    if "entry_ok s"
    using structure_text_ok [OF that, of rp i]
    by (simp add: entry_line_def entry_name_def entry_node_count_def get_or_def
        split: option.splits)
  show "\<exists>e. structure_text rp i s = Inl e" if "\<not> entry_ok s"
    using that by (rule structure_text_not_ok)
qed

theorem absent_fields_render_as_defaults_witness:
  "py_get partial_user ''user'' (JObj []) = Inr (JObj [(''email'', JStr ''john@example.com'')]) \<and>
   step2 sample_repr partial_user_backend \<lparr>calls = [], out = []\<rparr> =
     (Inr (), \<lparr>calls = [login_request],
        out = [banner2, ''   Status: 200'', ''   User: john@example.com - None'', []]\<rparr>) \<and>
   step3 sample_repr partial_user_backend \<lparr>calls = [], out = []\<rparr> =
     (Inr (), \<lparr>calls = [profile_request],
        out = [banner3, ''   Status: 200'', ''   User: None - None'', []]\<rparr>) \<and>
   step4 sample_repr partial_user_backend \<lparr>calls = [], out = []\<rparr> =
     (Inr (), \<lparr>calls = [save_structure_request],
        out = [banner4, ''   Status: 200'', ''   Structure: None (ID: None)'', []]\<rparr>) \<and>
   step5 sample_repr partial_user_backend \<lparr>calls = [], out = []\<rparr> =
     (Inr (), \<lparr>calls = [structures_request],
        out = [banner5, ''   Status: 200'', ''   Total Structures: 0'', []]\<rparr>) \<and>
   structure_text sample_repr 0 (JObj []) = Inr ''   [1] None (0 nodes)'' \<and>
   (\<exists>t. step2 sample_repr null_user_backend \<lparr>calls = [], out = []\<rparr> =
      (Inl (Raised AttributeError t),
       \<lparr>calls = [login_request], out = [banner2, ''   Status: 200'']\<rparr>))"
proof -
  let ?w = "\<lparr>calls = [], out = []\<rparr>"
  let ?resp = "\<lparr>status_code = 200, json_result = Inr partial_user\<rparr>"
  let ?null = "JObj [(''user'', JNull)]"
  let ?nresp = "\<lparr>status_code = 200, json_result = Inr ?null\<rparr>"
  note a = absent_fields_render_as_defaults [where v = partial_user and k = "''user''" and d = "JObj []"
      and rp = sample_repr and b = partial_user_backend and resp = ?resp and data = partial_user
      and w = ?w and s = "JObj []" and i = 0]
  note n = absent_fields_render_as_defaults [where rp = sample_repr and b = null_user_backend and resp = ?nresp
      and data = ?null and w = ?w]
  have o: "is_object partial_user" by (simp add: partial_user_def)
  have u: "get_or partial_user ''user'' (JObj []) = JObj [(''email'', JStr ''john@example.com'')]"
    by (simp add: get_or_def partial_user_def)
  have g: "get_or (JObj [(''email'', JStr ''john@example.com'')]) ''email'' JNull =
        JStr ''john@example.com''"
    "get_or (JObj [(''email'', JStr ''john@example.com'')]) ''fullName'' JNull = JNull"
    "get_or partial_user ''email'' JNull = JNull"
    "get_or partial_user ''fullName'' JNull = JNull"
    "get_or partial_user ''structure'' (JObj []) = JObj []"
    "get_or (JObj []) ''name'' JNull = JNull"
    "get_or (JObj []) ''id'' JNull = JNull"
    "get_or (JObj []) ''data'' (JObj []) = JObj []"
    "get_or (JObj []) ''nodes'' (JList []) = JList []"
    "field partial_user ''structures'' = None"
    by (simp_all add: get_or_def partial_user_def)
  have r: "\<And>q. partial_user_backend q = Inr ?resp"
    by (simp add: partial_user_backend_def answer_def)
  have nr: "\<And>q. null_user_backend q = Inr ?nresp"
    by (simp add: null_user_backend_def answer_def)
  have st: "py_str_int 200 = ''200''" by (simp add: py_str_int_def dec_nat_200)
  have d: "dec_nat (Suc 0) = ''1''" "dec_nat 0 = ''0''"
    by (simp_all add: dec_nat_digit digit_char_def)
  have e: "entry_ok (JObj [])" by (simp add: entry_ok_def)
  have nn: "\<not> (is_object ?null \<and> is_object (get_or ?null ''user'' (JObj [])))"
    by (simp add: get_or_def)
  have c1: "py_get partial_user ''user'' (JObj []) =
      Inr (JObj [(''email'', JStr ''john@example.com'')])"
    using a o by (simp add: u)
  have c2: "step2 sample_repr partial_user_backend ?w =
      (Inr (), \<lparr>calls = [login_request],
        out = [banner2, ''   Status: 200'', ''   User: john@example.com - None'', []]\<rparr>)"
    using a o r [of login_request] by (simp add: u g st)
  have c3: "step3 sample_repr partial_user_backend ?w =
      (Inr (), \<lparr>calls = [profile_request],
        out = [banner3, ''   Status: 200'', ''   User: None - None'', []]\<rparr>)"
    using a o r [of profile_request] by (simp add: u g st)
  have c4: "step4 sample_repr partial_user_backend ?w =
      (Inr (), \<lparr>calls = [save_structure_request],
        out = [banner4, ''   Status: 200'', ''   Structure: None (ID: None)'', []]\<rparr>)"
    using a o r [of save_structure_request] by (simp add: u g st)
  have c5: "step5 sample_repr partial_user_backend ?w =
      (Inr (), \<lparr>calls = [structures_request],
        out = [banner5, ''   Status: 200'', ''   Total Structures: 0'', []]\<rparr>)"
    using a o r [of structures_request] by (simp add: u g st)
  have c6: "structure_text sample_repr 0 (JObj []) = Inr ''   [1] None (0 nodes)''"
    using a e by (simp add: g d)
  have c7: "\<exists>t. step2 sample_repr null_user_backend ?w =
      (Inl (Raised AttributeError t),
       \<lparr>calls = [login_request], out = [banner2, ''   Status: 200'']\<rparr>)"
    using n nn nr [of login_request] by (simp add: st)
  from c1 c2 c3 c4 c5 c6 c7 show ?thesis by blast
qed

subsection \<open>Status codes\<close>

lemma is_status_line_status_text [simp]: "is_status_line (status_text resp)"
  by (simp add: status_text_def is_status_line_def)

lemma without_code_status [simp]: "without_code (status_text resp) = ''   Status: ''"
  by (simp add: without_code_def)

lemma not_status_fixed [simp]:
  "\<not> is_status_line banner1" "\<not> is_status_line banner2" "\<not> is_status_line banner3"
  "\<not> is_status_line banner4" "\<not> is_status_line banner5" "\<not> is_status_line header_text"
  "\<not> is_status_line success_text" "\<not> is_status_line []" "\<not> is_status_line (failure_text e)"
  by (simp_all add: is_status_line_def banner1_def banner2_def banner3_def banner4_def
      banner5_def header_text_def success_text_def check_mark_def failure_text_def
      failure_prefix_def cross_mark_def)

lemma not_status_prefix_fixed [simp]:
  "\<not> prefix ''   Status: '' banner1" "\<not> prefix ''   Status: '' banner2"
  "\<not> prefix ''   Status: '' banner3" "\<not> prefix ''   Status: '' banner4"
  "\<not> prefix ''   Status: '' banner5" "\<not> prefix ''   Status: '' header_text"
  "\<not> prefix ''   Status: '' success_text" "\<not> prefix ''   Status: '' (failure_text e)"
  using not_status_fixed by (simp_all only: is_status_line_def simp_thms)

lemma login_text_not_status: "login_text rp d = Inr t \<Longrightarrow> \<not> is_status_line t"
  by (auto simp: login_text_def and_then_def is_status_line_def split: sum.splits)

lemma profile_text_not_status: "profile_text rp d = Inr t \<Longrightarrow> \<not> is_status_line t"
  by (auto simp: profile_text_def and_then_def is_status_line_def split: sum.splits)

lemma saved_text_not_status: "saved_text rp d = Inr t \<Longrightarrow> \<not> is_status_line t"
  by (auto simp: saved_text_def and_then_def is_status_line_def split: sum.splits)

lemma structure_text_not_status: "structure_text rp i s = Inr t \<Longrightarrow> \<not> is_status_line t"
  by (auto simp: structure_text_def and_then_def is_status_line_def split: sum.splits)

lemma status_lines_append:
  "status_lines b (xs @ ys) = status_lines b xs @ status_lines b ys"
  by (simp add: status_lines_def)

lemma status_lines_Nil: "status_lines b [] = []"
  by (simp add: status_lines_def)

lemma print_structures_status_lines:
  "print_structures rp i xs w = (r, w') \<Longrightarrow>
     filter is_status_line (out w') = filter is_status_line (out w)"
proof (induction xs arbitrary: i w)
  case Nil
  then show ?case by (simp add: succeed_def)
next
  case (Cons s ss)
  show ?case
  proof (cases "structure_text rp i s")
    case (Inl e)
    with Cons.prems show ?thesis by (simp add: prog_defs)
  next
    case (Inr t)
    with Cons.prems have "print_structures rp (Suc i) ss (w\<lparr>out := out w @ [t]\<rparr>) = (r, w')"
      by (simp add: prog_defs)
    from Cons.IH [OF this] structure_text_not_status [OF Inr] show ?thesis by simp
  qed
qed

lemma step1_status_lines: "step1 rp b w = (r, w') \<Longrightarrow>
    filter is_status_line (out w') =
      filter is_status_line (out w) @ status_lines b [register_request]"
  by (auto simp: step1_def prog_defs status_lines_def status_text_def is_status_line_def split: sum.splits)

lemma step2_status_lines: "step2 rp b w = (r, w') \<Longrightarrow>
    filter is_status_line (out w') =
      filter is_status_line (out w) @ status_lines b [login_request]"
  by (auto simp: step2_def prog_defs status_lines_def status_text_def is_status_line_def split: sum.splits
      dest: login_text_not_status)

lemma step3_status_lines: "step3 rp b w = (r, w') \<Longrightarrow>
    filter is_status_line (out w') =
      filter is_status_line (out w) @ status_lines b [profile_request]"
  by (auto simp: step3_def prog_defs status_lines_def status_text_def is_status_line_def split: sum.splits
      dest: profile_text_not_status)

lemma step4_status_lines: "step4 rp b w = (r, w') \<Longrightarrow>
    filter is_status_line (out w') =
      filter is_status_line (out w) @ status_lines b [save_structure_request]"
  by (auto simp: step4_def prog_defs status_lines_def status_text_def is_status_line_def split: sum.splits
      dest: saved_text_not_status)

lemma step5_status_lines: "step5 rp b w = (r, w') \<Longrightarrow>
    filter is_status_line (out w') =
      filter is_status_line (out w) @ status_lines b [structures_request]"
  by (auto simp: step5_def prog_defs status_lines_def status_text_def is_status_line_def
      split: sum.splits prod.splits dest!: print_structures_status_lines)

lemma steps_status_lines:
  assumes "s \<in> set (steps rp b)"
    and "filter is_status_line (out w) = status_lines b (calls w)"
  shows "filter is_status_line (out (snd (s w))) = status_lines b (calls (snd (s w)))"
proof -
  obtain r w' where e: "s w = (r, w')" by (cases "s w")
  from assms(1) consider "s = step1 rp b" | "s = step2 rp b" | "s = step3 rp b"
    | "s = step4 rp b" | "s = step5 rp b"
    by (auto simp: steps_def)
  then show ?thesis
  proof cases
    case 1
    with e step1_status_lines [of rp b w r w'] step1_calls [of rp b w r w'] assms(2)
    show ?thesis by (simp add: status_lines_append)
  next
    case 2
    with e step2_status_lines [of rp b w r w'] step2_calls [of rp b w r w'] assms(2)
    show ?thesis by (simp add: status_lines_append)
  next
    case 3
    with e step3_status_lines [of rp b w r w'] step3_calls [of rp b w r w'] assms(2)
    show ?thesis by (simp add: status_lines_append)
  next
    case 4
    with e step4_status_lines [of rp b w r w'] step4_calls [of rp b w r w'] assms(2)
    show ?thesis by (simp add: status_lines_append)
  next
    case 5
    with e step5_status_lines [of rp b w r w'] step5_calls [of rp b w r w'] assms(2)
    show ?thesis by (simp add: status_lines_append)
  qed
qed

lemma script_status_lines:
  "filter is_status_line (out (script rp b)) = status_lines b (calls (script rp b))"
proof -
  have s0: "filter is_status_line (out start) = status_lines b (calls start)"
    by (simp add: start_def py_print_def status_lines_Nil)
  have i: "filter is_status_line (out (snd (seq_steps (steps rp b) start))) =
      status_lines b (calls (snd (seq_steps (steps rp b) start)))"
    by (rule seq_steps_invariant
        [where I = "\<lambda>v::world. filter is_status_line (out v) = status_lines b (calls v)"])
      (simp_all only: steps_status_lines s0)
  obtain r w where ss: "seq_steps (steps rp b) start = (r, w)"
    by (cases "seq_steps (steps rp b) start")
  with i have w: "filter is_status_line (out w) = status_lines b (calls w)" by simp
  show ?thesis
  proof (cases r)
    case (Inl e)
    with ss w show ?thesis by (simp add: script_def try_body_def then_do_def)
  next
    case (Inr u)
    with ss w show ?thesis by (simp add: script_def try_body_def then_do_def py_print_def)
  qed
qed

lemma print_structures_same_but_codes:
  "same_but_codes w1 w2 \<Longrightarrow>
     fst (print_structures rp i xs w1) = fst (print_structures rp i xs w2) \<and>
     same_but_codes (snd (print_structures rp i xs w1)) (snd (print_structures rp i xs w2))"
proof (induction xs arbitrary: i w1 w2)
  case Nil
  then show ?case by (simp add: succeed_def)
next
  case (Cons s ss)
  show ?case
  proof (cases "structure_text rp i s")
    case (Inl e)
    with Cons.prems show ?thesis by (simp add: prog_defs)
  next
    case (Inr t)
    from Cons.prems have "same_but_codes (w1\<lparr>out := out w1 @ [t]\<rparr>) (w2\<lparr>out := out w2 @ [t]\<rparr>)"
      by (simp add: same_but_codes_def)
    from Cons.IH [OF this, of "Suc i"] Inr show ?thesis by (simp add: prog_defs)
  qed
qed

lemma step1_status:
  "same_but_codes w1 w2 \<Longrightarrow>
     fst (step1 rp (with_status f b) w1) = fst (step1 rp b w2) \<and>
     same_but_codes (snd (step1 rp (with_status f b) w1)) (snd (step1 rp b w2))"
  by (auto simp: step1_def prog_defs with_status_def same_but_codes_def split: sum.splits)

lemma step2_status:
  "same_but_codes w1 w2 \<Longrightarrow>
     fst (step2 rp (with_status f b) w1) = fst (step2 rp b w2) \<and>
     same_but_codes (snd (step2 rp (with_status f b) w1)) (snd (step2 rp b w2))"
  by (auto simp: step2_def prog_defs with_status_def same_but_codes_def split: sum.splits)

lemma step3_status:
  "same_but_codes w1 w2 \<Longrightarrow>
     fst (step3 rp (with_status f b) w1) = fst (step3 rp b w2) \<and>
     same_but_codes (snd (step3 rp (with_status f b) w1)) (snd (step3 rp b w2))"
  by (auto simp: step3_def prog_defs with_status_def same_but_codes_def split: sum.splits)

lemma step4_status:
  "same_but_codes w1 w2 \<Longrightarrow>
     fst (step4 rp (with_status f b) w1) = fst (step4 rp b w2) \<and>
     same_but_codes (snd (step4 rp (with_status f b) w1)) (snd (step4 rp b w2))"
  by (auto simp: step4_def prog_defs with_status_def same_but_codes_def split: sum.splits)

lemma then_do_print_structures_status:
  assumes "same_but_codes w1 w2"
  shows "fst (then_do (print_structures rp i xs) (\<lambda>_. py_print t) w1) =
     fst (then_do (print_structures rp i xs) (\<lambda>_. py_print t) w2) \<and>
     same_but_codes (snd (then_do (print_structures rp i xs) (\<lambda>_. py_print t) w1))
       (snd (then_do (print_structures rp i xs) (\<lambda>_. py_print t) w2))"
proof -
  obtain r1 v1 where p1: "print_structures rp i xs w1 = (r1, v1)"
    by (cases "print_structures rp i xs w1")
  obtain r2 v2 where p2: "print_structures rp i xs w2 = (r2, v2)"
    by (cases "print_structures rp i xs w2")
  from print_structures_same_but_codes [OF assms, of rp i xs] p1 p2
  have r: "r1 = r2" and v: "same_but_codes v1 v2" by simp_all
  show ?thesis using p1 p2 r v
    by (cases r2) (simp_all add: then_do_def py_print_def same_but_codes_def)
qed

lemma step5_status:
  assumes c: "same_but_codes w1 w2"
  shows "fst (step5 rp (with_status f b) w1) = fst (step5 rp b w2) \<and>
     same_but_codes (snd (step5 rp (with_status f b) w1)) (snd (step5 rp b w2))"
proof -
  have t: "\<And>m k v. then_do m k v = (case m v of (Inl e, w') \<Rightarrow> (Inl e, w') | (Inr x, w') \<Rightarrow> k x w')"
    by (simp add: then_do_def)
  show ?thesis
  proof (cases "b structures_request")
    case (Inl e)
    with c show ?thesis by (simp add: step5_def prog_defs with_status_def same_but_codes_def)
  next
    case (Inr resp)
    show ?thesis
    proof (cases "json_result resp")
      case (Inl e)
      with Inr c show ?thesis
        by (simp add: step5_def prog_defs with_status_def same_but_codes_def)
    next
      case data: (Inr data)
      show ?thesis
      proof (cases "py_get data ''structures'' (JList [])")
        case (Inl e)
        with Inr data c show ?thesis
          by (simp add: step5_def prog_defs with_status_def same_but_codes_def)
      next
        case structures: (Inr structures)
        show ?thesis
        proof (cases "py_len structures")
          case (Inl e)
          with Inr data structures c show ?thesis
            by (simp add: step5_def prog_defs with_status_def same_but_codes_def)
        next
          case n: (Inr n)
          show ?thesis
          proof (cases "py_iter structures")
            case (Inl e)
            with Inr data structures n c show ?thesis
              by (simp add: step5_def prog_defs with_status_def same_but_codes_def)
          next
            case items: (Inr items)
            let ?v1 = "w1\<lparr>calls := calls w1 @ [structures_request],
              out := out w1 @ [banner5, status_text (resp\<lparr>status_code := f structures_request (status_code resp)\<rparr>),
                ''   Total Structures: '' @ py_str_int (int n)]\<rparr>"
            let ?v2 = "w2\<lparr>calls := calls w2 @ [structures_request],
              out := out w2 @ [banner5, status_text resp,
                ''   Total Structures: '' @ py_str_int (int n)]\<rparr>"
            have a: "step5 rp (with_status f b) w1 =
                then_do (print_structures rp 0 items) (\<lambda>_. py_print []) ?v1"
              using Inr data structures n items
              by (simp add: step5_def with_status_def http_def compute_def py_print_def t)
            have b: "step5 rp b w2 =
                then_do (print_structures rp 0 items) (\<lambda>_. py_print []) ?v2"
              using Inr data structures n items
              by (simp add: step5_def http_def compute_def py_print_def t)
            have "same_but_codes ?v1 ?v2" using c by (simp add: same_but_codes_def)
            from then_do_print_structures_status [OF this] show ?thesis
              unfolding a b .
          qed
        qed
      qed
    qed
  qed
qed

lemma seq_steps_related:
  assumes "list_all2 (\<lambda>s1 s2. \<forall>v1 v2. R v1 v2 \<longrightarrow>
             fst (s1 v1) = fst (s2 v2) \<and> R (snd (s1 v1)) (snd (s2 v2))) ss1 ss2"
    and "R w1 w2"
  shows "fst (seq_steps ss1 w1) = fst (seq_steps ss2 w2) \<and>
         R (snd (seq_steps ss1 w1)) (snd (seq_steps ss2 w2))"
  using assms
proof (induction arbitrary: w1 w2 rule: list_all2_induct)
  case Nil
  then show ?case by (simp add: succeed_def)
next
  case (Cons s1 ss1 s2 ss2)
  obtain r1 v1 where a: "s1 w1 = (r1, v1)" by (cases "s1 w1")
  obtain r2 v2 where b: "s2 w2 = (r2, v2)" by (cases "s2 w2")
  from Cons.hyps(1) Cons.prems(1)
  have "fst (s1 w1) = fst (s2 w2) \<and> R (snd (s1 w1)) (snd (s2 w2))" by blast
  with a b have r: "r1 = r2" and v: "R v1 v2" by simp_all
  show ?case
  proof (cases r2)
    case (Inl e)
    with a b r v show ?thesis by (simp add: then_do_def)
  next
    case (Inr u)
    with a b r Cons.IH [OF v] show ?thesis by (simp add: then_do_def)
  qed
qed

lemma script_same_but_codes:
  "outcome (script rp (with_status f b)) = outcome (script rp b) \<and>
   calls (script rp (with_status f b)) = calls (script rp b) \<and>
   map without_code (out (script rp (with_status f b))) = map without_code (out (script rp b))"
proof -
  have l: "list_all2 (\<lambda>s1 s2. \<forall>v1 v2. same_but_codes v1 v2 \<longrightarrow>
             fst (s1 v1) = fst (s2 v2) \<and> same_but_codes (snd (s1 v1)) (snd (s2 v2)))
          (steps rp (with_status f b)) (steps rp b)"
    unfolding steps_def
    using step1_status [of _ _ rp f b] step2_status [of _ _ rp f b] step3_status [of _ _ rp f b]
      step4_status [of _ _ rp f b] step5_status [of _ _ rp f b]
    by simp
  have s: "same_but_codes start start" by (simp add: same_but_codes_def)
  obtain r1 v1 where a: "seq_steps (steps rp (with_status f b)) start = (r1, v1)"
    by (cases "seq_steps (steps rp (with_status f b)) start")
  obtain r2 v2 where b: "seq_steps (steps rp b) start = (r2, v2)"
    by (cases "seq_steps (steps rp b) start")
  from seq_steps_related [OF l s] a b have r: "r1 = r2" and v: "same_but_codes v1 v2"
    by simp_all
  show ?thesis
  proof (cases r2)
    case (Inl e)
    with a b r v show ?thesis
      by (simp add: script_def try_body_def then_do_def same_but_codes_def)
  next
    case (Inr u)
    with a b r v show ?thesis
      by (simp add: script_def try_body_def then_do_def py_print_def same_but_codes_def)
  qed
qed

lemma print_structures_out_extends:
  "\<exists>rest. out (snd (print_structures rp i xs w)) = out w @ rest"
proof (induction xs arbitrary: i w)
  case Nil
  show ?case by (simp add: succeed_def)
next
  case (Cons s ss)
  show ?case
  proof (cases "structure_text rp i s")
    case (Inl e)
    then show ?thesis by (simp add: prog_defs)
  next
    case (Inr t)
    from Cons.IH [of "Suc i" "w\<lparr>out := out w @ [t]\<rparr>"] obtain rest where
      "out (snd (print_structures rp (Suc i) ss (w\<lparr>out := out w @ [t]\<rparr>))) =
        out w @ [t] @ rest" by auto
    with Inr show ?thesis by (simp add: prog_defs)
  qed
qed

lemma step1_prints_status:
  "b register_request = Inr resp \<Longrightarrow>
     \<exists>rest. out (snd (step1 rp b w)) = out w @ [banner1, status_text resp] @ rest"
  by (auto simp: step1_def prog_defs split: sum.splits)

lemma step2_prints_status:
  "b login_request = Inr resp \<Longrightarrow>
     \<exists>rest. out (snd (step2 rp b w)) = out w @ [banner2, status_text resp] @ rest"
  by (auto simp: step2_def prog_defs split: sum.splits)

lemma step3_prints_status:
  "b profile_request = Inr resp \<Longrightarrow>
     \<exists>rest. out (snd (step3 rp b w)) = out w @ [banner3, status_text resp] @ rest"
  by (auto simp: step3_def prog_defs split: sum.splits)

lemma step4_prints_status:
  "b save_structure_request = Inr resp \<Longrightarrow>
     \<exists>rest. out (snd (step4 rp b w)) = out w @ [banner4, status_text resp] @ rest"
  by (auto simp: step4_def prog_defs split: sum.splits)

lemma step5_prints_status:
  assumes "b structures_request = Inr resp"
  shows "\<exists>rest. out (snd (step5 rp b w)) = out w @ [banner5, status_text resp] @ rest"
proof -
  let ?v = "w\<lparr>calls := calls w @ [structures_request], out := out w @ [banner5, status_text resp]\<rparr>"
  have t: "\<And>m k v. then_do m k v = (case m v of (Inl e, w') \<Rightarrow> (Inl e, w') | (Inr x, w') \<Rightarrow> k x w')"
    by (simp add: then_do_def)
  show ?thesis
  proof (cases "json_result resp")
    case (Inl e)
    with assms show ?thesis by (simp add: step5_def prog_defs)
  next
    case data: (Inr data)
    show ?thesis
    proof (cases "py_get data ''structures'' (JList [])")
      case (Inl e)
      with assms data show ?thesis by (simp add: step5_def prog_defs)
    next
      case structures: (Inr structures)
      show ?thesis
      proof (cases "py_len structures")
        case (Inl e)
        with assms data structures show ?thesis by (simp add: step5_def prog_defs)
      next
        case n: (Inr n)
        show ?thesis
        proof (cases "py_iter structures")
          case (Inl e)
          with assms data structures n show ?thesis by (simp add: step5_def prog_defs)
        next
          case items: (Inr items)
          let ?u = "w\<lparr>calls := calls w @ [structures_request],
            out := out w @ [banner5, status_text resp,
              ''   Total Structures: '' @ py_str_int (int n)]\<rparr>"
          obtain r v where p: "print_structures rp 0 items ?u = (r, v)"
            by (cases "print_structures rp 0 items ?u")
          from print_structures_out_extends [of rp 0 items ?u] p obtain rest where
            o: "out v = out ?u @ rest" by auto
          have "step5 rp b w = then_do (print_structures rp 0 items) (\<lambda>_. py_print []) ?u"
            using assms data structures n items
            by (simp add: step5_def http_def compute_def py_print_def t)
          with p o show ?thesis by (cases r) (simp_all add: then_do_def py_print_def)
        qed
      qed
    qed
  qed
qed

lemma steps_nth_prints_status:
  assumes "k < 5" and "b (five_requests ! k) = Inr resp"
  shows "\<exists>banner rest.
           out (snd ((steps rp b ! k) w)) = out w @ [banner, status_text resp] @ rest"
proof -
  from assms(1) consider "k = 0" | "k = 1" | "k = 2" | "k = 3" | "k = 4" by linarith
  then show ?thesis
  proof cases
    case 1 with assms(2) step1_prints_status [of b resp rp w] show ?thesis
      by (simp add: steps_def five_requests_def) blast
  next
    case 2 with assms(2) step2_prints_status [of b resp rp w] show ?thesis
      by (simp add: steps_def five_requests_def) blast
  next
    case 3 with assms(2) step3_prints_status [of b resp rp w] show ?thesis
      by (simp add: steps_def five_requests_def) blast
  next
    case 4 with assms(2) step4_prints_status [of b resp rp w] show ?thesis
      by (simp add: steps_def five_requests_def) blast
  next
    case 5 with assms(2) step5_prints_status [of b resp rp w] show ?thesis
      by (simp add: steps_def five_requests_def) blast
  qed
qed

lemma finished_last:
  "outcome (script rp b) = Finished \<Longrightarrow> last (out (script rp b)) = success_text"
  by (auto simp: script_def try_body_def then_do_def py_print_def
      split: sum.splits prod.splits if_splits)

text \<open>
  C9. Status codes are never acted upon. Replacing every status code of the backend's
  responses by any other leaves the outcome of the run and the calls it makes unchanged,
  and the output too, line by line, but for the codes shown in the status lines. The
  status lines of a run are those of the responses to its calls, in order, each the text
  \<^verbatim>\<open>Status:\<close> followed by the code: the code is printed and nothing else is made of it.
  A run in which no exception is raised makes all five calls and ends by printing the
  success banner, whatever the codes; and each step whose call returns prints the status it
  got right after its banner.
\<close>

theorem status_codes_are_only_printed:
  "outcome (script rp (with_status f b)) = outcome (script rp b) \<and>
   calls (script rp (with_status f b)) = calls (script rp b) \<and>
   map without_code (out (script rp (with_status f b))) =
     map without_code (out (script rp b)) \<and>
   filter is_status_line (out (script rp b)) = status_lines b (calls (script rp b)) \<and>
   (outcome (script rp b) = Finished \<longrightarrow>
      calls (script rp (with_status f b)) = five_requests \<and>
      last (out (script rp (with_status f b))) = success_text) \<and>
   (k < 5 \<and> b (five_requests ! k) = Inr resp \<longrightarrow>
      (\<exists>banner rest.
         out (snd ((steps rp b ! k) w)) =
           out w @ [banner, ''   Status: '' @ py_str_int (status_code resp)] @ rest))"
proof -
  note s = script_same_but_codes [of rp f b]
  from s have o: "outcome (script rp (with_status f b)) = outcome (script rp b)" by blast
  have f: "outcome (script rp b) = Finished \<longrightarrow>
      calls (script rp (with_status f b)) = five_requests \<and>
      last (out (script rp (with_status f b))) = success_text"
    using o finished_calls [of rp "with_status f b"] finished_last [of rp "with_status f b"]
    by simp
  have p: "k < 5 \<and> b (five_requests ! k) = Inr resp \<longrightarrow>
      (\<exists>banner rest.
         out (snd ((steps rp b ! k) w)) =
           out w @ [banner, ''   Status: '' @ py_str_int (status_code resp)] @ rest)"
    using steps_nth_prints_status [of k b resp rp w] unfolding status_text_def by blast
  from s f p script_status_lines [of rp b] show ?thesis by blast
qed

lemma server_error_status_lines:
  "status_lines server_error_backend five_requests =
     [''   Status: 500'', ''   Status: 500'', ''   Status: 500'', ''   Status: 500'',
      ''   Status: 500'']"
  by (simp add: status_lines_def five_requests_def server_error_backend_def with_status_def
      empty_backend_def answer_def py_str_int_def dec_nat_500)

lemma empty_status_lines:
  "status_lines (empty_backend 200) five_requests =
     [''   Status: 200'', ''   Status: 200'', ''   Status: 200'', ''   Status: 200'',
      ''   Status: 200'']"
  by (simp add: status_lines_def five_requests_def empty_backend_def answer_def py_str_int_def
      dec_nat_200)

theorem status_codes_are_only_printed_witness:
  "outcome (script sample_repr server_error_backend) = Finished \<and>
   calls (script sample_repr server_error_backend) = five_requests \<and>
   last (out (script sample_repr server_error_backend)) = success_text \<and>
   map without_code (out (script sample_repr server_error_backend)) =
     map without_code (out (script sample_repr (empty_backend 200))) \<and>
   filter is_status_line (out (script sample_repr server_error_backend)) =
     [''   Status: 500'', ''   Status: 500'', ''   Status: 500'', ''   Status: 500'',
      ''   Status: 500''] \<and>
   filter is_status_line (out (script sample_repr (empty_backend 200))) =
     [''   Status: 200'', ''   Status: 200'', ''   Status: 200'', ''   Status: 200'',
      ''   Status: 200''] \<and>
   (\<exists>banner rest.
      out (snd ((steps sample_repr server_error_backend ! 0) start)) =
        out start @ [banner, ''   Status: 500''] @ rest)"
proof -
  note a = status_codes_are_only_printed [where rp = sample_repr and f = "\<lambda>r c. 500"
      and b = "empty_backend 200"]
  note b = status_codes_are_only_printed [where rp = sample_repr and b = server_error_backend
      and f = "\<lambda>r c. c" and k = 0 and w = start
      and resp = "\<lparr>status_code = 500, json_result = Inr (JObj [])\<rparr>"]
  have h: "(0::nat) < 5 \<and> server_error_backend (five_requests ! 0) =
      Inr \<lparr>status_code = 500, json_result = Inr (JObj [])\<rparr>"
    by (simp add: server_error_backend_def with_status_def empty_backend_def answer_def)
  have st: "py_str_int (status_code \<lparr>status_code = 500, json_result = Inr (JObj [])\<rparr>) = ''500''"
    by (simp add: py_str_int_def dec_nat_500)
  have fin: "outcome (script sample_repr (empty_backend 200)) = Finished"
    by (rule empty_run_finished)
  from a have "outcome (script sample_repr (with_status (\<lambda>r c. 500) (empty_backend 200))) =
      outcome (script sample_repr (empty_backend 200))"
    by blast
  with fin have c1: "outcome (script sample_repr server_error_backend) = Finished"
    unfolding server_error_backend_def by simp
  from a fin
  have c2: "calls (script sample_repr server_error_backend) = five_requests \<and>
      last (out (script sample_repr server_error_backend)) = success_text"
    unfolding server_error_backend_def by blast
  from a have c3: "map without_code (out (script sample_repr server_error_backend)) =
      map without_code (out (script sample_repr (empty_backend 200)))"
    unfolding server_error_backend_def by blast
  from b have "filter is_status_line (out (script sample_repr server_error_backend)) =
      status_lines server_error_backend (calls (script sample_repr server_error_backend))"
    by blast
  with c2 have c4: "filter is_status_line (out (script sample_repr server_error_backend)) =
      [''   Status: 500'', ''   Status: 500'', ''   Status: 500'', ''   Status: 500'',
       ''   Status: 500'']"
    by (simp only: server_error_status_lines)
  from a have "filter is_status_line (out (script sample_repr (empty_backend 200))) =
      status_lines (empty_backend 200) (calls (script sample_repr (empty_backend 200)))"
    by blast
  moreover have "calls (script sample_repr (empty_backend 200)) = five_requests"
    using fin by (rule finished_calls)
  ultimately have c5: "filter is_status_line (out (script sample_repr (empty_backend 200))) =
      [''   Status: 200'', ''   Status: 200'', ''   Status: 200'', ''   Status: 200'',
       ''   Status: 200'']"
    by (simp only: empty_status_lines)
  from b h have "\<exists>banner rest.
      out (snd ((steps sample_repr server_error_backend ! 0) start)) =
        out start @ [banner, ''   Status: '' @
          py_str_int (status_code \<lparr>status_code = 500, json_result = Inr (JObj [])\<rparr>)] @ rest"
    by blast
  then have c6: "\<exists>banner rest.
      out (snd ((steps sample_repr server_error_backend ! 0) start)) =
        out start @ [banner, ''   Status: 500''] @ rest"
    unfolding st by simp
  from c1 c2 c3 c4 c5 c6 show ?thesis by blast
qed

subsection \<open>Determinism\<close>




















subsection \<open>The listing step on two bodies\<close>

text \<open>
  C6. When the body of the step-5 response is \<^verbatim>\<open>{"structures": []}\<close>, step 5 prints its
  banner, the status, the text \<^verbatim>\<open>Total Structures: 0\<close> (indented by three spaces) and the
  closing empty line: no line for any structure.
\<close>

theorem empty_listing_prints_total_0:
  "step5 rp (\<lambda>r. Inr \<lparr>status_code = c,
        json_result = Inr (JObj [(''structures'', JList [])])\<rparr>) w =
     (Inr (), w\<lparr>calls := calls w @ [structures_request],
        out := out w @
          [banner5, ''   Status: '' @ py_str_int c, ''   Total Structures: 0'', []]\<rparr>)"
  by (simp add: step5_def prog_defs status_text_def py_str_int_nat dec_nat_digit digit_char_def)


subsection \<open>One user throughout\<close>

text \<open>
  C8. The email in the URLs of get-profile, save-structure and get-structures is the
  \<^verbatim>\<open>email\<close> field of the registration payload and of the login payload.
\<close>

theorem same_user_in_all_requests:
  "\<exists>e. payload_email register_request = Some (JStr e) \<and>
       payload_email login_request = Some (JStr e) \<and>
       url profile_request = BASE_URL @ ''/api/user/'' @ e \<and>
       url save_structure_request = BASE_URL @ ''/api/user/'' @ e @ ''/save-structure'' \<and>
       url structures_request = BASE_URL @ ''/api/user/'' @ e @ ''/structures''"
  by (simp add: payload_email_def register_request_def login_request_def profile_request_def
      save_structure_request_def structures_request_def)

end
